theory Spec2Isabelle
  imports Complex_Main "HOL-Library.Word"
begin

section \<open>The decoder object\<close>

text \<open>
  The program is one class, \<^verbatim>\<open>UVB76StreamDecoder\<close>, whose methods read and write the
  attributes of \<^verbatim>\<open>self\<close>. The attributes the decoding pipeline uses are the fields
  of the record \<open>decoder\<close>; every method takes the record and returns the updated one.
  Python floats are read as real numbers (rounding is not modelled), and the wall clock
  \<^verbatim>\<open>time.time()\<close> is an argument of the method that reads it.
\<close>

text \<open>One entry of \<^verbatim>\<open>fsk_state_history\<close> (the dict built in \<^verbatim>\<open>update_fsk_state\<close>).\<close>

record fsk_event =
  ev_state :: string
  ev_frequency :: real
  ev_magnitude :: real
  ev_timestamp :: real
  ev_duration :: real

text \<open>One entry of \<^verbatim>\<open>binary_log\<close>.\<close>

record bit_entry =
  bl_timestamp :: real
  bl_session_time :: real
  bl_binary_state :: int
  bl_frequency :: real
  bl_bit_number :: nat

text \<open>One entry of \<^verbatim>\<open>frequency_log\<close>.\<close>

record freq_entry =
  fl_timestamp :: real
  fl_session_time :: real
  fl_frequency :: real
  fl_magnitude :: real
  fl_audio_level :: real

text \<open>One entry of \<^verbatim>\<open>waterfall_log\<close>.\<close>

record waterfall_entry =
  wl_timestamp :: real
  wl_session_time :: real
  wl_frequencies :: "real list"
  wl_magnitudes :: "real list"

record decoder =
  sample_rate :: real
  chunk_size :: nat
  is_streaming :: bool
  frequency_buffer :: "real list"
  binary_buffer :: "int list"
  time_buffer :: "real list"
  audio_level_buffer :: "real list"
  binary_log :: "bit_entry list"
  frequency_log :: "freq_entry list"
  waterfall_log :: "waterfall_entry list"
  session_start_time :: "real option"
  bytes_received :: nat
  chunks_processed :: nat
  last_audio_time :: real
  uvb76_frequencies :: "(string \<times> real) list"
  freq_tolerance :: real
  min_signal_strength :: real
  strong_signal_threshold :: real
  current_fsk_state :: "string option"
  last_fsk_change :: "real option"
  fsk_state_history :: "fsk_event list"
  waterfall_data :: "real list list"
  waterfall_times :: "real list"
  max_waterfall_lines :: nat
  log_binary_var :: bool
  log_frequency_var :: bool
  log_waterfall_var :: bool

text \<open>
  The object after \<^verbatim>\<open>__init__\<close> and \<^verbatim>\<open>create_gui\<close> (which creates the waterfall
  lists and the three logging check boxes). The dict \<^verbatim>\<open>uvb76_frequencies\<close> keeps its
  insertion order, which \<^verbatim>\<open>.items()\<close> follows: it is an association list.
\<close>

definition init_decoder :: decoder where
  "init_decoder = \<lparr>
     sample_rate = 44100,
     chunk_size = 4096,
     is_streaming = False,
     frequency_buffer = [],
     binary_buffer = [],
     time_buffer = [],
     audio_level_buffer = [],
     binary_log = [],
     frequency_log = [],
     waterfall_log = [],
     session_start_time = None,
     bytes_received = 0,
     chunks_processed = 0,
     last_audio_time = 0,
     uvb76_frequencies = [(''freq_1'', 21.53), (''freq_2'', 26.92), (''freq_3'', 32.30)],
     freq_tolerance = 0.5,
     min_signal_strength = 15.0,
     strong_signal_threshold = 45.0,
     current_fsk_state = None,
     last_fsk_change = None,
     fsk_state_history = [],
     waterfall_data = [],
     waterfall_times = [],
     max_waterfall_lines = 100,
     log_binary_var = True,
     log_frequency_var = True,
     log_waterfall_var = False \<rparr>"

text \<open>
  \<^verbatim>\<open>self.uvb76_frequencies['freq_1']\<close>. The three keys are written in \<^verbatim>\<open>__init__\<close>
  and never removed, so the lookup does not raise; a missing key reads as 0 here.
\<close>

definition tone :: "decoder \<Rightarrow> string \<Rightarrow> real" where
  "tone d k = (case map_of (uvb76_frequencies d) k of Some f \<Rightarrow> f | None \<Rightarrow> 0)"

text \<open>
  \<^verbatim>\<open>collections.deque(maxlen=m).append(x)\<close>: the element goes to the right end and,
  when the deque is then longer than \<open>m\<close>, the leftmost element is dropped.
\<close>

definition deque_append :: "nat \<Rightarrow> 'a list \<Rightarrow> 'a \<Rightarrow> 'a list" where
  "deque_append m xs x = (let ys = xs @ [x] in if m < length ys then tl ys else ys)"

section \<open>Tone classification\<close>

text \<open>
  \<^verbatim>\<open>frequency_to_binary_debug\<close> (the variant the pipeline calls) and
  \<^verbatim>\<open>frequency_to_binary\<close>. The result is 0, 1 or \<^verbatim>\<open>None\<close>; the \<^verbatim>\<open>print\<close> calls of the
  debug variant do not touch the object and are left out.
\<close>

definition frequency_to_binary_debug :: "decoder \<Rightarrow> real \<Rightarrow> int option" where
  "frequency_to_binary_debug d frequency =
     (let freq_1 = tone d ''freq_1'';
          freq_2 = tone d ''freq_2'';
          freq_3 = tone d ''freq_3'';
          tol = freq_tolerance d
      in if \<bar>frequency - freq_1\<bar> \<le> tol then Some 0
         else if \<bar>frequency - freq_2\<bar> \<le> tol then Some 1
         else if \<bar>frequency - freq_3\<bar> \<le> tol then None
         else if 20.0 \<le> frequency \<and> frequency \<le> 35.0 then None
         else None)"

definition frequency_to_binary :: "decoder \<Rightarrow> real \<Rightarrow> int option" where
  "frequency_to_binary d frequency =
     (let freq_1 = tone d ''freq_1'';
          freq_2 = tone d ''freq_2'';
          freq_3 = tone d ''freq_3'';
          tol = freq_tolerance d
      in if \<bar>frequency - freq_1\<bar> \<le> tol then Some 0
         else if \<bar>frequency - freq_2\<bar> \<le> tol then Some 1
         else if \<bar>frequency - freq_3\<bar> \<le> tol then None
         else None)"

text \<open>
  \<^verbatim>\<open>current_time - self.session_start_time if self.session_start_time else 0\<close>: a start
  time that is \<^verbatim>\<open>None\<close> or 0.0 is falsy.
\<close>

definition session_time_of :: "decoder \<Rightarrow> real \<Rightarrow> real" where
  "session_time_of d current_time =
     (case session_start_time d of
        None \<Rightarrow> 0
      | Some s \<Rightarrow> if s = 0 then 0 else current_time - s)"

text \<open>
  The end of the peak branch of \<^verbatim>\<open>process_audio_chunk\<close> (decode the peak frequency to a
  binary state, append it to \<^verbatim>\<open>binary_buffer\<close> and, when the check box is set, to
  \<^verbatim>\<open>binary_log\<close>). \<^verbatim>\<open>update_binary_display\<close> only redraws a widget.
\<close>

definition accumulate_bit :: "decoder \<Rightarrow> real \<Rightarrow> real \<Rightarrow> decoder" where
  "accumulate_bit d peak_freq current_time =
     (case frequency_to_binary_debug d peak_freq of
        None \<Rightarrow> d
      | Some binary_state \<Rightarrow>
          (let d1 = d\<lparr>binary_buffer := deque_append 500 (binary_buffer d) binary_state\<rparr>
           in if log_binary_var d1
              then d1\<lparr>binary_log := binary_log d1 @
                     [\<lparr>bl_timestamp = current_time,
                       bl_session_time = session_time_of d1 current_time,
                       bl_binary_state = binary_state,
                       bl_frequency = peak_freq,
                       bl_bit_number = length (binary_log d1) + 1\<rparr>]\<rparr>
              else d1))"

section \<open>FSK state tracking\<close>

text \<open>
  \<^verbatim>\<open>update_fsk_state\<close>. The labels are f-strings with \<^verbatim>\<open>:.2f\<close> fields; Python's
  rendering of a float with two decimals is the parameter \<open>fmt2\<close>. The method reads the
  clock itself; \<open>current_time\<close> is that reading. \<^verbatim>\<open>x or current_time\<close> takes
  \<^verbatim>\<open>current_time\<close> when \<open>x\<close> is \<^verbatim>\<open>None\<close> or 0.0.
\<close>

definition or_time :: "real option \<Rightarrow> real \<Rightarrow> real" where
  "or_time x current_time =
     (case x of None \<Rightarrow> current_time | Some t \<Rightarrow> if t = 0 then current_time else t)"

definition fsk_label :: "(real \<Rightarrow> string) \<Rightarrow> decoder \<Rightarrow> real \<Rightarrow> string" where
  "fsk_label fmt2 d frequency =
     (let freq_1 = tone d ''freq_1'';
          freq_2 = tone d ''freq_2'';
          freq_3 = tone d ''freq_3'';
          tol = freq_tolerance d
      in if \<bar>frequency - freq_1\<bar> \<le> tol then ''FSK-1 ('' @ fmt2 freq_1 @ ''Hz)''
         else if \<bar>frequency - freq_2\<bar> \<le> tol then ''FSK-2 ('' @ fmt2 freq_2 @ ''Hz)''
         else if \<bar>frequency - freq_3\<bar> \<le> tol then ''FSK-3 ('' @ fmt2 freq_3 @ ''Hz)''
         else ''Unknown ('' @ fmt2 frequency @ ''Hz)'')"

definition update_fsk_state ::
  "(real \<Rightarrow> string) \<Rightarrow> decoder \<Rightarrow> real \<Rightarrow> real \<Rightarrow> real \<Rightarrow> decoder \<times> string" where
  "update_fsk_state fmt2 d frequency magnitude current_time =
     (let new_state = fsk_label fmt2 d frequency
      in if Some new_state \<noteq> current_fsk_state d
         then (let d1 = d\<lparr>last_fsk_change := Some current_time\<rparr>;
                   d2 = d1\<lparr>fsk_state_history := deque_append 50 (fsk_state_history d1)
                          \<lparr>ev_state = new_state,
                            ev_frequency = frequency,
                            ev_magnitude = magnitude,
                            ev_timestamp = current_time,
                            ev_duration = current_time - or_time (last_fsk_change d1) current_time\<rparr>\<rparr>;
                   d3 = d2\<lparr>current_fsk_state := Some new_state\<rparr>
               in (d3, new_state))
         else (d, new_state))"

section \<open>Audio decoding\<close>

text \<open>
  Exceptions are values: \<^verbatim>\<open>ValueError\<close> with its message. \<^verbatim>\<open>np.frombuffer\<close> raises it
  when the buffer length is not a multiple of the item size, \<^verbatim>\<open>int(s, 2)\<close> when \<open>s\<close> is
  not a binary literal.
\<close>

datatype py_exn = ValueError string

type_synonym byte = "8 word"

text \<open>Two bytes to a 16-bit item: little-endian (the native order) and big-endian.\<close>

definition le16 :: "byte \<Rightarrow> byte \<Rightarrow> 16 word" where
  "le16 b0 b1 = or (push_bit 8 (ucast b1)) (ucast b0)"

definition be16 :: "byte \<Rightarrow> byte \<Rightarrow> 16 word" where
  "be16 b0 b1 = or (push_bit 8 (ucast b0)) (ucast b1)"

definition le32 :: "byte \<Rightarrow> byte \<Rightarrow> byte \<Rightarrow> byte \<Rightarrow> 32 word" where
  "le32 b0 b1 b2 b3 =
     or (push_bit 24 (ucast b3)) (or (push_bit 16 (ucast b2)) (or (push_bit 8 (ucast b1)) (ucast b0)))"

fun items16 :: "(byte \<Rightarrow> byte \<Rightarrow> 16 word) \<Rightarrow> byte list \<Rightarrow> 16 word list" where
  "items16 f (b0 # b1 # bs) = f b0 b1 # items16 f bs"
| "items16 f bs = []"

fun items32 :: "byte list \<Rightarrow> 32 word list" where
  "items32 (b0 # b1 # b2 # b3 # bs) = le32 b0 b1 b2 b3 # items32 bs"
| "items32 bs = []"

definition frombuffer16 ::
  "(byte \<Rightarrow> byte \<Rightarrow> 16 word) \<Rightarrow> byte list \<Rightarrow> py_exn + 16 word list" where
  "frombuffer16 f audio_bytes =
     (if length audio_bytes mod 2 \<noteq> 0
      then Inl (ValueError ''buffer size must be a multiple of element size'')
      else Inr (items16 f audio_bytes))"

definition frombuffer32 :: "byte list \<Rightarrow> py_exn + 32 word list" where
  "frombuffer32 audio_bytes =
     (if length audio_bytes mod 4 \<noteq> 0
      then Inl (ValueError ''buffer size must be a multiple of element size'')
      else Inr (items32 audio_bytes))"

text \<open>
  \<^verbatim>\<open>.astype(np.float32) / 32768.0\<close>: a 16-bit integer is a float32 exactly, and so is
  its quotient by a power of two.
\<close>

definition normalize16 :: "16 word \<Rightarrow> real" where
  "normalize16 w = real_of_int (sint w) / 32768"

text \<open>
  The three decoding attempts at the head of \<^verbatim>\<open>process_audio_chunk\<close>, each in its
  own \<^verbatim>\<open>try\<close> with \<^verbatim>\<open>except: pass\<close>, which leaves \<^verbatim>\<open>audio_data\<close> as it was. The
  value numpy reads from the 32 bits of a float32 item is the parameter \<open>f32\<close> (IEEE-754
  decoding is numpy's, not this program's).
\<close>

definition decode_audio :: "(32 word \<Rightarrow> real) \<Rightarrow> byte list \<Rightarrow> real list option" where
  "decode_audio f32 audio_bytes =
     (let a0 = None;
          a1 = (case frombuffer16 le16 audio_bytes of
                  Inl e \<Rightarrow> a0
                | Inr ws \<Rightarrow>
                    (let audio_data = map normalize16 ws
                     in if length audio_data < 100 then None else Some audio_data));
          a2 = (if a1 = None
                then (case frombuffer32 audio_bytes of
                        Inl e \<Rightarrow> a1
                      | Inr ws \<Rightarrow>
                          (let audio_data = map f32 ws
                           in if length audio_data < 100 then None else Some audio_data))
                else a1);
          a3 = (if a2 = None
                then (case frombuffer16 be16 audio_bytes of
                        Inl e \<Rightarrow> a2
                      | Inr ws \<Rightarrow>
                          (let audio_data = map normalize16 ws
                           in if length audio_data < 100 then None else Some audio_data))
                else a2)
      in a3)"

text \<open>
  The specification's wording of the same step, for comparison: the interpretations in
  the order int16 little-endian, float32, int16 big-endian, and the first of them that
  parses and has at least 100 samples.
\<close>

definition interpretations :: "(32 word \<Rightarrow> real) \<Rightarrow> byte list \<Rightarrow> (py_exn + real list) list" where
  "interpretations f32 audio_bytes =
     [map_sum id (map normalize16) (frombuffer16 le16 audio_bytes),
      map_sum id (map f32) (frombuffer32 audio_bytes),
      map_sum id (map normalize16) (frombuffer16 be16 audio_bytes)]"

fun first_long_enough :: "(py_exn + real list) list \<Rightarrow> real list option" where
  "first_long_enough [] = None"
| "first_long_enough (Inl e # rs) = first_long_enough rs"
| "first_long_enough (Inr a # rs) = (if 100 \<le> length a then Some a else first_long_enough rs)"

section \<open>Spectral peak and the analysis pass\<close>

text \<open>
  \<^verbatim>\<open>scipy.fft.fftfreq(n, d)\<close>: the bin centres \<open>0, 1, ..., (n-1)//2, -(n//2), ..., -1\<close>,
  each times \<open>1/(n d)\<close>.
\<close>

definition fftfreq :: "nat \<Rightarrow> real \<Rightarrow> real list" where
  "fftfreq n d =
     (let val = 1 / (real n * d)
      in map (\<lambda>k. real k * val) [0..<(n - 1) div 2 + 1] @
         map (\<lambda>k. (real k - real (n div 2)) * val) [0..<n div 2])"

text \<open>
  Peak selection in \<^verbatim>\<open>process_audio_chunk\<close>: the boolean mask of the band [20, 34] Hz
  applied to both arrays, the enumeration of the in-band bins with a magnitude of at
  least \<^verbatim>\<open>min_signal_strength\<close>, the stable sort by magnitude in descending order
  (\<^verbatim>\<open>list.sort(key=..., reverse=True)\<close> keeps equal keys in their original order), and
  the first element of the sorted list. \<^verbatim>\<open>sort_key\<close> is the library's stable
  insertion sort; the key is negated for the descending order.
\<close>

definition in_band :: "(real \<times> real) list \<Rightarrow> (real \<times> real) list" where
  "in_band bins = filter (\<lambda>(freq, mag). 20.0 \<le> freq \<and> freq \<le> 34.0) bins"

definition significant_peaks :: "decoder \<Rightarrow> (real \<times> real) list \<Rightarrow> (real \<times> real \<times> nat) list" where
  "significant_peaks d range_bins =
     map (\<lambda>(i, (freq, mag)). (freq, mag, i))
       (filter (\<lambda>(i, (freq, mag)). min_signal_strength d \<le> mag) (enumerate 0 range_bins))"

definition select_peak :: "decoder \<Rightarrow> real list \<Rightarrow> real list \<Rightarrow> (real \<times> real \<times> nat) option" where
  "select_peak d freqs magnitude =
     (let range_bins = in_band (zip freqs magnitude)
      in if range_bins \<noteq> []
         then (let peaks = significant_peaks d range_bins
               in if peaks \<noteq> []
                  then Some (hd (sort_key (\<lambda>(freq, mag, i). - mag) peaks))
                  else None)
         else None)"

text \<open>
  \<^verbatim>\<open>is_uvb_frequency\<close>: some configured tone lies within twice the tolerance of the
  peak.
\<close>

definition is_uvb_frequency :: "decoder \<Rightarrow> real \<Rightarrow> bool" where
  "is_uvb_frequency d peak_freq =
     list_ex (\<lambda>(tone_name, tone_freq). \<bar>peak_freq - tone_freq\<bar> \<le> freq_tolerance d * 2)
       (uvb76_frequencies d)"

text \<open>
  What \<^verbatim>\<open>process_audio_chunk\<close> does with a selected peak. \<^verbatim>\<open>update_fsk_state\<close> reads the
  clock again: \<open>fsk_time\<close> is that later reading.
\<close>

definition handle_peak ::
  "(real \<Rightarrow> string) \<Rightarrow> decoder \<Rightarrow> real \<Rightarrow> real \<Rightarrow> real \<Rightarrow> real \<Rightarrow> real \<Rightarrow> decoder" where
  "handle_peak fmt2 d peak_freq peak_mag current_time fsk_time audio_level =
     (if is_uvb_frequency d peak_freq \<and> min_signal_strength d \<le> peak_mag
      then (let d1 = fst (update_fsk_state fmt2 d peak_freq peak_mag fsk_time);
                d2 = d1\<lparr>frequency_buffer := deque_append 1000 (frequency_buffer d1) peak_freq\<rparr>;
                d3 = d2\<lparr>time_buffer := deque_append 1000 (time_buffer d2) current_time\<rparr>;
                d4 = (if log_frequency_var d3
                      then d3\<lparr>frequency_log := frequency_log d3 @
                             [\<lparr>fl_timestamp = current_time,
                               fl_session_time = session_time_of d3 current_time,
                               fl_frequency = peak_freq,
                               fl_magnitude = peak_mag,
                               fl_audio_level = audio_level\<rparr>]\<rparr>
                      else d3)
            in accumulate_bit d4 peak_freq current_time)
      else d)"

definition peak_stage ::
  "(real \<Rightarrow> string) \<Rightarrow> decoder \<Rightarrow> real list \<Rightarrow> real list \<Rightarrow> real \<Rightarrow> real \<Rightarrow> real \<Rightarrow> decoder" where
  "peak_stage fmt2 d freqs magnitude current_time fsk_time audio_level =
     (case select_peak d freqs magnitude of
        None \<Rightarrow> d
      | Some (peak_freq, peak_mag, peak_idx) \<Rightarrow>
          handle_peak fmt2 d peak_freq peak_mag current_time fsk_time audio_level)"

text \<open>
  \<^verbatim>\<open>process_audio_chunk\<close> as a whole. The magnitude spectrum of the Hann-windowed
  segment (scipy's window and FFT, then \<^verbatim>\<open>np.abs\<close>) is the parameter \<open>spectrum\<close>; it has
  one value per sample of the segment.
\<close>

definition process_audio_chunk ::
  "(real \<Rightarrow> string) \<Rightarrow> (32 word \<Rightarrow> real) \<Rightarrow> (real list \<Rightarrow> real list) \<Rightarrow>
   decoder \<Rightarrow> byte list \<Rightarrow> real \<Rightarrow> real \<Rightarrow> decoder" where
  "process_audio_chunk fmt2 f32 spectrum d audio_bytes current_time fsk_time =
     (let d1 = d\<lparr>chunks_processed := chunks_processed d + 1\<rparr>
      in case decode_audio f32 audio_bytes of
           None \<Rightarrow> d1
         | Some audio_data \<Rightarrow>
             (let audio_level = (\<Sum>x\<leftarrow>audio_data. \<bar>x\<bar>) / real (length audio_data);
                  d2 = d1\<lparr>audio_level_buffer := deque_append 1000 (audio_level_buffer d1) audio_level\<rparr>;
                  d3 = d2\<lparr>last_audio_time := current_time\<rparr>
              in if audio_level < 0.001 then d3
                 else (let window_size = min (length audio_data) 8192
                       in if window_size < 2048 then d3
                          else (let audio_segment = take window_size audio_data;
                                    magnitude = spectrum audio_segment;
                                    freqs = fftfreq window_size (1 / sample_rate d3);
                                    waterfall_freqs = take (window_size div 2) freqs;
                                    waterfall_magnitude = take (window_size div 2) magnitude;
                                    d4 = d3\<lparr>waterfall_data := waterfall_data d3 @ [waterfall_magnitude]\<rparr>;
                                    d5 = d4\<lparr>waterfall_times := waterfall_times d4 @ [current_time]\<rparr>;
                                    d6 = (if max_waterfall_lines d5 < length (waterfall_data d5)
                                          then d5\<lparr>waterfall_data := tl (waterfall_data d5),
                                                  waterfall_times := tl (waterfall_times d5)\<rparr>
                                          else d5);
                                    d7 = peak_stage fmt2 d6 freqs magnitude current_time fsk_time audio_level
                                in if log_waterfall_var d7 \<and> 0 < length (waterfall_data d7)
                                   then d7\<lparr>waterfall_log := waterfall_log d7 @
                                          [\<lparr>wl_timestamp = current_time,
                                            wl_session_time = session_time_of d7 current_time,
                                            wl_frequencies = waterfall_freqs,
                                            wl_magnitudes = waterfall_magnitude\<rparr>]\<rparr>
                                   else d7))))"

section \<open>Session start\<close>

text \<open>
  \<^verbatim>\<open>start_stream\<close>, up to the point where the two threads are started. The URL is read
  from a widget and the clock from \<^verbatim>\<open>time.time()\<close>: both are arguments. The widget
  texts it sets are not part of the record.
\<close>

definition start_stream :: "decoder \<Rightarrow> string \<Rightarrow> real \<Rightarrow> decoder" where
  "start_stream d url now =
     (if url = [] then d
      else d\<lparr>is_streaming := True,
             session_start_time := Some now,
             frequency_buffer := [],
             binary_buffer := [],
             time_buffer := [],
             audio_level_buffer := [],
             waterfall_data := [],
             waterfall_times := [],
             binary_log := [],
             frequency_log := [],
             waterfall_log := []\<rparr>)"

text \<open>\<^verbatim>\<open>stop_stream\<close>; the widget texts it sets are not part of the record.\<close>

definition stop_stream :: "decoder \<Rightarrow> decoder" where
  "stop_stream d = d\<lparr>is_streaming := False\<rparr>"

text \<open>
  One round of the loop of \<^verbatim>\<open>stream_audio\<close> over the chunks of the response: the loop
  ends when the session is no longer streaming, and a non-empty chunk is queued and
  counted. The queue is not part of the record.
\<close>

definition receive_chunk :: "decoder \<Rightarrow> byte list \<Rightarrow> decoder" where
  "receive_chunk d chunk =
     (if is_streaming d \<and> chunk \<noteq> []
      then d\<lparr>bytes_received := bytes_received d + length chunk\<rparr>
      else d)"

section \<open>Python strings and loops\<close>

text \<open>
  \<^verbatim>\<open>str(n)\<close> of an integer, \<^verbatim>\<open>format(n, '02X')\<close> (upper-case hexadecimal, padded with
  zeros to two characters, the sign counted), and \<^verbatim>\<open>sep.join(xs)\<close>.
\<close>

definition digit_char :: "nat \<Rightarrow> char" where
  "digit_char n = ''0123456789ABCDEF'' ! n"

fun str_nat :: "nat \<Rightarrow> string" where
  "str_nat n = (if n < 10 then [digit_char n] else str_nat (n div 10) @ [digit_char (n mod 10)])"

declare str_nat.simps [simp del]

definition str_int :: "int \<Rightarrow> string" where
  "str_int i = (if i < 0 then CHR ''-'' # str_nat (nat (- i)) else str_nat (nat i))"

fun hex_nat :: "nat \<Rightarrow> string" where
  "hex_nat n = (if n < 16 then [digit_char n] else hex_nat (n div 16) @ [digit_char (n mod 16)])"

declare hex_nat.simps [simp del]

definition format_02X :: "int \<Rightarrow> string" where
  "format_02X i =
     (if i < 0 then CHR ''-'' # hex_nat (nat (- i))
      else (let h = hex_nat (nat i) in replicate (2 - length h) CHR ''0'' @ h))"

fun join :: "string \<Rightarrow> string list \<Rightarrow> string" where
  "join sep [] = []"
| "join sep [x] = x"
| "join sep (x # y # xs) = x @ sep @ join sep (y # xs)"

text \<open>\<^verbatim>\<open>range(stop)\<close> and \<^verbatim>\<open>range(0, stop, step)\<close> for a positive step; the stop may be negative.\<close>

definition range_upto :: "int \<Rightarrow> nat list" where
  "range_upto stop = [0..<nat stop]"

definition range_step :: "int \<Rightarrow> nat \<Rightarrow> nat list" where
  "range_step stop step = map (\<lambda>k. k * step) [0..<nat ((stop + int step - 1) div int step)]"

text \<open>\<^verbatim>\<open>s[i:i+n]\<close> for \<open>0 \<le> i\<close>.\<close>

definition slice :: "string \<Rightarrow> nat \<Rightarrow> nat \<Rightarrow> string" where
  "slice s i n = take n (drop i s)"

text \<open>
  \<^verbatim>\<open>s.count(p)\<close> for a non-empty \<open>p\<close>: the occurrences counted from the left without
  overlap. The third argument is the number of characters still covered by the last
  occurrence counted.
\<close>

fun count_from :: "string \<Rightarrow> string \<Rightarrow> nat \<Rightarrow> nat" where
  "count_from p [] k = 0"
| "count_from p (c # cs) (Suc k) = count_from p cs k"
| "count_from p (c # cs) 0 =
     (if take (length p) (c # cs) = p then 1 + count_from p cs (length p - 1)
      else count_from p cs 0)"

definition str_count :: "string \<Rightarrow> string \<Rightarrow> nat" where
  "str_count s p = count_from p s 0"

text \<open>
  \<^verbatim>\<open>int(s, 2)\<close>. The strings parsed here are slices of the concatenated \<^verbatim>\<open>str\<close> of
  integers, so their characters are decimal digits and \<^verbatim>\<open>-\<close>; on those Python accepts
  an optional leading minus sign followed by one or more binary digits and raises
  \<^verbatim>\<open>ValueError\<close> on everything else. The message quotes the string as \<^verbatim>\<open>repr\<close> does.
\<close>

definition is_bin_digit :: "char \<Rightarrow> bool" where
  "is_bin_digit c = (c = CHR ''0'' \<or> c = CHR ''1'')"

definition bin_value :: "string \<Rightarrow> int" where
  "bin_value s = foldl (\<lambda>a c. 2 * a + (if c = CHR ''1'' then 1 else 0)) 0 s"

definition repr_str :: "string \<Rightarrow> string" where
  "repr_str s = CHR 0x27 # s @ [CHR 0x27]"

definition int_base2 :: "string \<Rightarrow> py_exn + int" where
  "int_base2 s =
     (let negative = (case s of [] \<Rightarrow> False | c # r \<Rightarrow> c = CHR ''-'');
          body = (if negative then tl s else s)
      in if body \<noteq> [] \<and> list_all is_bin_digit body
         then Inr (if negative then - bin_value body else bin_value body)
         else Inl (ValueError (''invalid literal for int() with base 2: '' @ repr_str s)))"

text \<open>A \<^verbatim>\<open>for\<close> loop whose body may raise: the first exception ends the loop.\<close>

fun for_loop :: "'i list \<Rightarrow> ('i \<Rightarrow> 'a \<Rightarrow> py_exn + 'a) \<Rightarrow> 'a \<Rightarrow> py_exn + 'a" where
  "for_loop [] body acc = Inr acc"
| "for_loop (i # is) body acc =
     (case body i acc of Inl e \<Rightarrow> Inl e | Inr acc' \<Rightarrow> for_loop is body acc')"

text \<open>\<^verbatim>\<open>''.join(map(str, bits))\<close>.\<close>

definition bit_string_of :: "int list \<Rightarrow> string" where
  "bit_string_of bits = concat (map str_int bits)"

section \<open>Pattern decoder\<close>

text \<open>The eight decoding methods of \<^verbatim>\<open>decode_binary_sequence\<close>, each the body of its \<^verbatim>\<open>try\<close>.\<close>

definition ascii_8bit :: "string \<Rightarrow> py_exn + string" where
  "ascii_8bit bit_string =
     for_loop (range_step (int (length bit_string) - 7) 8)
       (\<lambda>i ascii_result.
          (let byte = slice bit_string i 8
           in if length byte = 8
              then (case int_base2 byte of
                      Inl e \<Rightarrow> Inl e
                    | Inr decimal_value \<Rightarrow>
                        if 32 \<le> decimal_value \<and> decimal_value \<le> 126
                        then Inr (ascii_result @ [char_of decimal_value])
                        else Inr (ascii_result @ ''['' @ str_int decimal_value @ '']''))
              else Inr ascii_result))
       []"

definition nibbles_4bit :: "string \<Rightarrow> py_exn + string list" where
  "nibbles_4bit bit_string =
     for_loop (range_step (int (length bit_string) - 3) 4)
       (\<lambda>i nibbles.
          (let nibble = slice bit_string i 4
           in if length nibble = 4
              then (case int_base2 nibble of
                      Inl e \<Rightarrow> Inl e
                    | Inr v \<Rightarrow> Inr (nibbles @ [str_int v]))
              else Inr nibbles))
       []"

definition bytes_decimal :: "string \<Rightarrow> py_exn + string list" where
  "bytes_decimal bit_string =
     for_loop (range_step (int (length bit_string) - 7) 8)
       (\<lambda>i acc.
          (let byte = slice bit_string i 8
           in if length byte = 8
              then (case int_base2 byte of
                      Inl e \<Rightarrow> Inl e
                    | Inr v \<Rightarrow> Inr (acc @ [str_int v]))
              else Inr acc))
       []"

definition hex_bytes :: "string \<Rightarrow> py_exn + string" where
  "hex_bytes bit_string =
     for_loop (range_step (int (length bit_string) - 7) 8)
       (\<lambda>i hex_result.
          (let byte = slice bit_string i 8
           in if length byte = 8
              then (case int_base2 byte of
                      Inl e \<Rightarrow> Inl e
                    | Inr v \<Rightarrow> Inr (hex_result @ format_02X v @ '' ''))
              else Inr hex_result))
       []"

definition baudot_letters :: "(string \<times> char) list" where
  "baudot_letters =
     [(''11000'', CHR ''A''), (''10011'', CHR ''B''), (''01110'', CHR ''C''), (''10010'', CHR ''D''),
      (''10000'', CHR ''E''), (''10110'', CHR ''F''), (''01011'', CHR ''G''), (''00101'', CHR ''H''),
      (''01100'', CHR ''I''), (''11010'', CHR ''J''), (''11110'', CHR ''K''), (''01001'', CHR ''L''),
      (''00111'', CHR ''M''), (''00110'', CHR ''N''), (''00011'', CHR ''O''), (''01101'', CHR ''P''),
      (''11101'', CHR ''Q''), (''01010'', CHR ''R''), (''10100'', CHR ''S''), (''00001'', CHR ''T''),
      (''11100'', CHR ''U''), (''01111'', CHR ''V''), (''11001'', CHR ''W''), (''10111'', CHR ''X''),
      (''10101'', CHR ''Y''), (''10001'', CHR ''Z'')]"

definition baudot_5bit :: "string \<Rightarrow> py_exn + string" where
  "baudot_5bit bit_string =
     for_loop (range_step (int (length bit_string) - 4) 5)
       (\<lambda>i baudot_result.
          (let code = slice bit_string i 5
           in if length code = 5
              then (case map_of baudot_letters code of
                      Some letter \<Rightarrow> Inr (baudot_result @ [letter])
                    | None \<Rightarrow> Inr (baudot_result @ ''?''))
              else Inr baudot_result))
       []"

definition bcd_decimal :: "string \<Rightarrow> py_exn + string" where
  "bcd_decimal bit_string =
     for_loop (range_step (int (length bit_string) - 3) 4)
       (\<lambda>i bcd_result.
          (let nibble = slice bit_string i 4
           in if length nibble = 4
              then (case int_base2 nibble of
                      Inl e \<Rightarrow> Inl e
                    | Inr v \<Rightarrow>
                        if 0 \<le> v \<and> v \<le> 9 then Inr (bcd_result @ str_int v)
                        else Inr (bcd_result @ ''X''))
              else Inr bcd_result))
       []"

definition sync_table :: "(string \<times> string) list" where
  "sync_table =
     [(''10101010'', ''SYNC_AA''), (''01010101'', ''SYNC_55''), (''11110000'', ''SYNC_F0''),
      (''00001111'', ''SYNC_0F''), (''11111111'', ''ALL_ONES''), (''00000000'', ''ALL_ZEROS'')]"

definition sync_patterns :: "string \<Rightarrow> py_exn + string" where
  "sync_patterns bit_string =
     (let found_syncs =
            concat (map (\<lambda>(pattern, name).
                      (let count = str_count bit_string pattern
                       in if 0 < count then [name @ ''('' @ str_nat count @ '')''] else []))
                    sync_table)
      in Inr (if found_syncs \<noteq> [] then join '', '' found_syncs else ''None detected''))"

text \<open>
  The statistics method. \<open>fmt_pct\<close> and \<open>fmt2\<close> are Python's renderings \<^verbatim>\<open>:.1%\<close> and
  \<^verbatim>\<open>:.2f\<close> of a float. The method writes no slot when the bit string is empty.
\<close>

definition statistics :: "(real \<Rightarrow> string) \<Rightarrow> (real \<Rightarrow> string) \<Rightarrow> string \<Rightarrow> py_exn + string option" where
  "statistics fmt_pct fmt2 bit_string =
     (let ones_count = str_count bit_string ''1'';
          zeros_count = str_count bit_string ''0'';
          total_bits = length bit_string
      in if 0 < total_bits
         then (let p1 = real ones_count / real total_bits;
                   p0 = real zeros_count / real total_bits;
                   e0 = 0;
                   e1 = (if 0 < p1 then e0 - p1 * log 2 p1 else e0);
                   entropy = (if 0 < p0 then e1 - p0 * log 2 p0 else e1)
               in Inr (Some (''1s:'' @ str_nat ones_count @ ''('' @ fmt_pct p1 @ '') 0s:'' @
                             str_nat zeros_count @ ''('' @ fmt_pct p0 @ '') Entropy:'' @ fmt2 entropy)))
         else Inr None)"

text \<open>
  \<^verbatim>\<open>decode_binary_sequence\<close>. The result is a dict from slot names to strings. Each
  \<^verbatim>\<open>try\<close> writes its slot when its method returns (the first six only when the decoded
  text is not empty), and its \<^verbatim>\<open>except\<close> writes the failure marker.
\<close>

type_synonym results = "string \<rightharpoonup> string"

definition decode_binary_sequence ::
  "(real \<Rightarrow> string) \<Rightarrow> (real \<Rightarrow> string) \<Rightarrow> int list \<Rightarrow> results" where
  "decode_binary_sequence fmt_pct fmt2 bits =
     (if length bits < 8 then [''error'' \<mapsto> ''Need at least 8 bits for decoding'']
      else
       (let bit_string = bit_string_of bits;
            r0 = (Map.empty :: results);
            r1 = (case ascii_8bit bit_string of
                    Inl e \<Rightarrow> r0(''ascii_8bit'' \<mapsto> ''Decode failed'')
                  | Inr ascii_result \<Rightarrow>
                      if ascii_result \<noteq> [] then r0(''ascii_8bit'' \<mapsto> take 50 ascii_result) else r0);
            r2 = (case nibbles_4bit bit_string of
                    Inl e \<Rightarrow> r1(''nibbles_4bit'' \<mapsto> ''Decode failed'')
                  | Inr nibbles \<Rightarrow>
                      if nibbles \<noteq> [] then r1(''nibbles_4bit'' \<mapsto> join '' '' (take 20 nibbles)) else r1);
            r3 = (case bytes_decimal bit_string of
                    Inl e \<Rightarrow> r2(''bytes_decimal'' \<mapsto> ''Decode failed'')
                  | Inr bs \<Rightarrow>
                      if bs \<noteq> [] then r2(''bytes_decimal'' \<mapsto> join '' '' (take 15 bs)) else r2);
            r4 = (case hex_bytes bit_string of
                    Inl e \<Rightarrow> r3(''hex_bytes'' \<mapsto> ''Decode failed'')
                  | Inr hex_result \<Rightarrow>
                      if hex_result \<noteq> [] then r3(''hex_bytes'' \<mapsto> take 60 hex_result) else r3);
            r5 = (case baudot_5bit bit_string of
                    Inl e \<Rightarrow> r4(''baudot_5bit'' \<mapsto> ''Decode failed'')
                  | Inr baudot_result \<Rightarrow>
                      if baudot_result \<noteq> [] then r4(''baudot_5bit'' \<mapsto> take 30 baudot_result) else r4);
            r6 = (case bcd_decimal bit_string of
                    Inl e \<Rightarrow> r5(''bcd_decimal'' \<mapsto> ''Decode failed'')
                  | Inr bcd_result \<Rightarrow>
                      if bcd_result \<noteq> [] then r5(''bcd_decimal'' \<mapsto> take 40 bcd_result) else r5);
            r7 = (case sync_patterns bit_string of
                    Inl e \<Rightarrow> r6(''sync_patterns'' \<mapsto> ''Analysis failed'')
                  | Inr text \<Rightarrow> r6(''sync_patterns'' \<mapsto> text));
            r8 = (case statistics fmt_pct fmt2 bit_string of
                    Inl e \<Rightarrow> r7(''statistics'' \<mapsto> ''Calc failed'')
                  | Inr None \<Rightarrow> r7
                  | Inr (Some text) \<Rightarrow> r7(''statistics'' \<mapsto> text))
        in r8))"

text \<open>
  \<^verbatim>\<open>analyze_patterns\<close>: the string \<^verbatim>\<open>"Insufficient data"\<close>, or the dict of the repeating
  patterns and the decoded slots.
\<close>

datatype analysis = Text string | Report "string list" results

definition repeating_patterns :: "string \<Rightarrow> string list" where
  "repeating_patterns bit_string =
     concat (map (\<lambda>len.
        concat (map (\<lambda>i.
           (let pattern = slice bit_string i len;
                count = str_count bit_string pattern
            in if 2 < count \<and> 4 \<le> length pattern
               then [pattern @ ''('' @ str_nat count @ ''x)''] else []))
         (range_upto (int (length bit_string) - int len))))
      [4, 8, 16])"

definition analyze_patterns ::
  "(real \<Rightarrow> string) \<Rightarrow> (real \<Rightarrow> string) \<Rightarrow> int list \<Rightarrow> analysis" where
  "analyze_patterns fmt_pct fmt2 bits =
     (if length bits < 8 then Text ''Insufficient data''
      else (let bit_string = bit_string_of bits;
                patterns = repeating_patterns bit_string;
                decoded_results = decode_binary_sequence fmt_pct fmt2 bits
            in Report (if patterns \<noteq> [] then take 5 patterns else [''No clear patterns''])
                 decoded_results))"

section \<open>Monolit heuristic\<close>

text \<open>
  Character classes on the strings the heuristic builds, which hold printable ASCII
  only: \<^verbatim>\<open>str.isalnum\<close>, the regular expressions' \<^verbatim>\<open>\d\<close>, \<^verbatim>\<open>[A-Z]\<close> and \<^verbatim>\<open>\w\<close>, and
  \<^verbatim>\<open>str.upper\<close>.
\<close>

definition is_digit :: "char \<Rightarrow> bool" where
  "is_digit c = (48 \<le> (of_char c :: nat) \<and> (of_char c :: nat) \<le> 57)"

definition is_upper :: "char \<Rightarrow> bool" where
  "is_upper c = (65 \<le> (of_char c :: nat) \<and> (of_char c :: nat) \<le> 90)"

definition is_lower :: "char \<Rightarrow> bool" where
  "is_lower c = (97 \<le> (of_char c :: nat) \<and> (of_char c :: nat) \<le> 122)"

definition is_alnum :: "char \<Rightarrow> bool" where
  "is_alnum c = (is_digit c \<or> is_upper c \<or> is_lower c)"

definition is_word :: "char \<Rightarrow> bool" where
  "is_word c = (is_alnum c \<or> c = CHR ''_'')"

definition isalnum :: "string \<Rightarrow> bool" where
  "isalnum s = (s \<noteq> [] \<and> list_all is_alnum s)"

definition upper :: "string \<Rightarrow> string" where
  "upper s = map (\<lambda>c. if is_lower c then char_of ((of_char c :: nat) - 32) else c) s"

text \<open>
  \<^verbatim>\<open>re.findall\<close> for a pattern that consumes at least one character: the string is
  scanned from the left, a match is recorded and the scan goes on behind it, otherwise
  it moves one character on. The matcher gets whether the character before the position
  is a word character (for \<^verbatim>\<open>\b\<close>) and the rest of the string. The counter is the number
  of characters still covered by the last match.
\<close>

fun findall_scan :: "(bool \<Rightarrow> string \<Rightarrow> string option) \<Rightarrow> bool \<Rightarrow> nat \<Rightarrow> string \<Rightarrow> string list" where
  "findall_scan m prev_word k [] = []"
| "findall_scan m prev_word (Suc k) (c # cs) = findall_scan m (is_word c) k cs"
| "findall_scan m prev_word 0 (c # cs) =
     (case m prev_word (c # cs) of
        Some w \<Rightarrow> w # findall_scan m (is_word c) (length w - 1) cs
      | None \<Rightarrow> findall_scan m (is_word c) 0 cs)"

definition starts_word :: "string \<Rightarrow> bool" where
  "starts_word s = (case s of [] \<Rightarrow> False | c # r \<Rightarrow> is_word c)"

text \<open>\<^verbatim>\<open>\b\<close>: exactly one of the two neighbouring characters is a word character.\<close>

definition at_boundary :: "bool \<Rightarrow> string \<Rightarrow> bool" where
  "at_boundary prev_word s = (prev_word \<noteq> starts_word s)"

text \<open>\<^verbatim>\<open>\b\d{n}\b\<close> at the head of \<open>s\<close>, for \<open>0 < n\<close>.\<close>

definition match_digits :: "nat \<Rightarrow> bool \<Rightarrow> string \<Rightarrow> string option" where
  "match_digits n prev_word s =
     (let g = take n s
      in if at_boundary prev_word s \<and> length g = n \<and> list_all is_digit g \<and>
            at_boundary True (drop n s)
         then Some g else None)"

text \<open>
  \<^verbatim>\<open>\b[A-Z]{4,6}\b\<close> at the head of \<open>s\<close>: the greedy repetition tries six letters first
  and gives one back as long as the closing \<^verbatim>\<open>\b\<close> fails.
\<close>

definition match_letters :: "nat \<Rightarrow> bool \<Rightarrow> string \<Rightarrow> string option" where
  "match_letters n prev_word s =
     (let g = take n s
      in if at_boundary prev_word s \<and> length g = n \<and> list_all is_upper g \<and>
            at_boundary True (drop n s)
         then Some g else None)"

definition match_code_word :: "bool \<Rightarrow> string \<Rightarrow> string option" where
  "match_code_word prev_word s =
     (case match_letters 6 prev_word s of
        Some w \<Rightarrow> Some w
      | None \<Rightarrow>
          (case match_letters 5 prev_word s of
             Some w \<Rightarrow> Some w
           | None \<Rightarrow> match_letters 4 prev_word s))"

definition findall_digits :: "nat \<Rightarrow> string \<Rightarrow> string list" where
  "findall_digits n s = findall_scan (match_digits n) False 0 s"

definition findall_code_words :: "string \<Rightarrow> string list" where
  "findall_code_words s = findall_scan match_code_word False 0 s"

text \<open>The two renderings of the bit string, byte by byte.\<close>

definition ascii_chars_of :: "string \<Rightarrow> py_exn + string" where
  "ascii_chars_of bit_string =
     for_loop (range_step (int (length bit_string) - 7) 8)
       (\<lambda>i ascii_chars.
          (let byte = slice bit_string i 8
           in if length byte = 8
              then (case int_base2 byte of
                      Inl e \<Rightarrow> Inl e
                    | Inr val \<Rightarrow>
                        if 32 \<le> val \<and> val \<le> 126 then Inr (ascii_chars @ [char_of val])
                        else Inr (ascii_chars @ ''.''))
              else Inr ascii_chars))
       []"

definition decimal_sequence_of :: "string \<Rightarrow> py_exn + string" where
  "decimal_sequence_of bit_string =
     for_loop (range_step (int (length bit_string) - 7) 8)
       (\<lambda>i decimal_sequence.
          (let byte = slice bit_string i 8
           in if length byte = 8
              then (case int_base2 byte of
                      Inl e \<Rightarrow> Inl e
                    | Inr val \<Rightarrow>
                        if 48 \<le> val \<and> val \<le> 57 then Inr (decimal_sequence @ [char_of val])
                        else Inr (decimal_sequence @ '' ''))
              else Inr decimal_sequence))
       []"

text \<open>The search for a short alphanumeric string that is immediately repeated.\<close>

definition callsign_patterns_of :: "string \<Rightarrow> string list" where
  "callsign_patterns_of ascii_chars =
     concat (map (\<lambda>len.
        concat (map (\<lambda>i.
           (let pattern = slice ascii_chars i len;
                next_pattern = slice ascii_chars (i + len) len
            in if pattern = next_pattern \<and> isalnum pattern
               then [CHR 0x27 # pattern @ CHR 0x27 # '' (repeated)''] else []))
         (range_upto (int (length ascii_chars) - int len * 2))))
      [3, 4, 5])"

text \<open>The score and its band, as the method computes them.\<close>

definition monolit_score :: "string list \<Rightarrow> string list \<Rightarrow> string list \<Rightarrow> string list \<Rightarrow> nat" where
  "monolit_score callsign_patterns five_digit_groups eight_digit_groups code_word_candidates =
     (let score = 0;
          score = (if callsign_patterns \<noteq> [] then score + 30 else score);
          score = (if five_digit_groups \<noteq> [] then score + 25 else score);
          score = (if eight_digit_groups \<noteq> [] then score + 25 else score);
          score = (if code_word_candidates \<noteq> [] then score + 20 else score)
      in score)"

definition likelihood_of :: "nat \<Rightarrow> string" where
  "likelihood_of score =
     (if 70 \<le> score then ''HIGH - Strong Monolit characteristics''
      else if 40 \<le> score then ''MEDIUM - Some Monolit patterns''
      else if 20 \<le> score then ''LOW - Few Monolit indicators''
      else ''NONE - No clear Monolit patterns'')"

text \<open>The check mark that opens each line of the structure analysis, in UTF-8.\<close>

definition check_mark :: string where
  "check_mark = [CHR 0xE2, CHR 0x9C, CHR 0x93]"

definition structure_analysis_of ::
  "string list \<Rightarrow> string list \<Rightarrow> string list \<Rightarrow> string list \<Rightarrow> string list" where
  "structure_analysis_of callsign_patterns five_digit_groups eight_digit_groups code_word_candidates =
     (if callsign_patterns \<noteq> [] then [check_mark @ '' Repeated callsign pattern detected''] else []) @
     (if five_digit_groups \<noteq> []
      then [check_mark @ '' '' @ str_nat (length five_digit_groups) @ '' five-digit ID groups found'']
      else []) @
     (if eight_digit_groups \<noteq> []
      then [check_mark @ '' '' @ str_nat (length eight_digit_groups) @ '' eight-digit message blocks found'']
      else []) @
     (if code_word_candidates \<noteq> []
      then [check_mark @ '' '' @ str_nat (length code_word_candidates) @ '' code word candidates found'']
      else [])"

text \<open>The timing analysis over the first 50 entries of \<^verbatim>\<open>binary_log\<close>.\<close>

definition timing_analysis_of :: "(real \<Rightarrow> string) \<Rightarrow> bit_entry list \<Rightarrow> string" where
  "timing_analysis_of fmt2 entries =
     (let timing_intervals =
            filter (\<lambda>interval. 0.1 < interval \<and> interval < 10)
              (map (\<lambda>i. bl_session_time (entries ! i) - bl_session_time (entries ! (i - 1)))
                 [1..<min (length entries) 50])
      in if timing_intervals \<noteq> []
         then ''Avg bit interval: '' @
              fmt2 (sum_list timing_intervals / real (length timing_intervals)) @
              ''s (typical Monolit: 0.5-2.0s)''
         else ''Insufficient timing data'')"

text \<open>
  \<^verbatim>\<open>detect_monolit_coding\<close>. The values of its dict are strings or lists of strings.
  The whole analysis is one \<^verbatim>\<open>try\<close>: an exception leaves the slots written so far and
  adds the slot \<^verbatim>\<open>error\<close>.
\<close>

datatype pyval = Str string | StrList "string list"

type_synonym monolit_results = "string \<rightharpoonup> pyval"

definition or_none_detected :: "nat \<Rightarrow> string list \<Rightarrow> pyval" where
  "or_none_detected n xs = (if xs \<noteq> [] then StrList (take n xs) else Str ''None detected'')"

definition monolit_failed :: "monolit_results \<Rightarrow> py_exn \<Rightarrow> monolit_results" where
  "monolit_failed results e =
     (case e of ValueError msg \<Rightarrow> results(''error'' \<mapsto> Str (''Monolit analysis failed: '' @ msg)))"

definition detect_monolit_coding :: "(real \<Rightarrow> string) \<Rightarrow> decoder \<Rightarrow> int list \<Rightarrow> monolit_results" where
  "detect_monolit_coding fmt2 d bits =
     (if length bits < 64 then [''error'' \<mapsto> Str ''Insufficient data for Monolit analysis'']
      else
       (let bit_string = bit_string_of bits;
            r0 = (Map.empty :: monolit_results)
        in case ascii_chars_of bit_string of
             Inl e \<Rightarrow> monolit_failed r0 e
           | Inr ascii_chars \<Rightarrow>
               (let callsign_patterns = callsign_patterns_of ascii_chars;
                    r1 = r0(''callsign_candidates'' \<mapsto> or_none_detected 5 callsign_patterns)
                in case decimal_sequence_of bit_string of
                     Inl e \<Rightarrow> monolit_failed r1 e
                   | Inr decimal_sequence \<Rightarrow>
                       (let five_digit_groups = findall_digits 5 decimal_sequence;
                            r2 = r1(''five_digit_groups'' \<mapsto> or_none_detected 10 five_digit_groups);
                            eight_digit_groups = findall_digits 8 decimal_sequence;
                            r3 = r2(''eight_digit_blocks'' \<mapsto> or_none_detected 5 eight_digit_groups);
                            code_word_candidates = findall_code_words (upper ascii_chars);
                            r4 = r3(''code_word_candidates'' \<mapsto> or_none_detected 5 code_word_candidates);
                            structure_analysis =
                              structure_analysis_of callsign_patterns five_digit_groups
                                eight_digit_groups code_word_candidates;
                            score =
                              monolit_score callsign_patterns five_digit_groups
                                eight_digit_groups code_word_candidates;
                            likelihood = likelihood_of score;
                            r5 = r4(''monolit_likelihood'' \<mapsto> Str likelihood);
                            r6 = r5(''structure_analysis'' \<mapsto>
                                   StrList (if structure_analysis \<noteq> [] then structure_analysis
                                            else [''No clear Monolit structure detected'']));
                            r7 = (if 10 < length (binary_log d)
                                  then r6(''timing_analysis'' \<mapsto> Str (timing_analysis_of fmt2 (binary_log d)))
                                  else r6)
                        in r7))))"

section \<open>The Monolit features in the words of the specification\<close>

text \<open>
  The definitions of this section follow the specification, not the code; the heuristic
  is compared with them below. The ASCII rendering of a bit stream has one character
  for every complete group of eight bits, most significant bit first: the character
  with that code when it is printable (32 to 126) and a dot otherwise. The digit-only
  rendering keeps the digits and has a space everywhere else.
\<close>

definition byte_value :: "int list \<Rightarrow> int" where
  "byte_value bs = foldl (\<lambda>a b. 2 * a + b) 0 bs"

definition ascii_char :: "int \<Rightarrow> char" where
  "ascii_char v = (if 32 \<le> v \<and> v \<le> 126 then char_of v else CHR ''.'')"

definition ascii_rendering :: "int list \<Rightarrow> string" where
  "ascii_rendering bits =
     map (\<lambda>k. ascii_char (byte_value (take 8 (drop (k * 8) bits)))) [0..<length bits div 8]"

definition digits_only :: "string \<Rightarrow> string" where
  "digits_only s = map (\<lambda>c. if is_digit c then c else CHR '' '') s"

definition is_letter :: "char \<Rightarrow> bool" where
  "is_letter c = (is_upper c \<or> is_lower c)"

text \<open>
  A run of exactly \<open>n\<close> characters of the class \<open>P\<close> at position \<open>i\<close>, with no character of
  the class \<open>W\<close> directly before or behind it. A group of \<open>n\<close> digits is such a run of
  digits between non-digits; a word is a run of letters between characters that are
  neither letters, digits nor the underscore. The specification asks for words of four
  to six upper-case letters; \<open>spec_letter_word\<close> is the same for letters of either case.
\<close>

definition bounded_run :: "(char \<Rightarrow> bool) \<Rightarrow> (char \<Rightarrow> bool) \<Rightarrow> nat \<Rightarrow> string \<Rightarrow> nat \<Rightarrow> bool" where
  "bounded_run P W n s i =
     (i + n \<le> length s \<and> list_all P (take n (drop i s)) \<and>
      (i = 0 \<or> \<not> W (s ! (i - 1))) \<and> (i + n = length s \<or> \<not> W (s ! (i + n))))"

definition spec_digit_group :: "nat \<Rightarrow> string \<Rightarrow> bool" where
  "spec_digit_group n s = list_ex (bounded_run is_digit is_digit n s) [0..<length s]"

definition spec_upper_word :: "string \<Rightarrow> bool" where
  "spec_upper_word s =
     list_ex (\<lambda>n. list_ex (bounded_run is_upper is_word n s) [0..<length s]) [4, 5, 6]"

definition spec_letter_word :: "string \<Rightarrow> bool" where
  "spec_letter_word s =
     list_ex (\<lambda>n. list_ex (bounded_run is_letter is_word n s) [0..<length s]) [4, 5, 6]"

text \<open>
  A call-sign candidate: three, four or five letters or digits that are immediately
  repeated. \<open>spec_call_sign_before_end\<close> asks in addition for at least one character
  behind the repetition.
\<close>

definition repeated_at :: "string \<Rightarrow> nat \<Rightarrow> nat \<Rightarrow> bool" where
  "repeated_at s len i =
     (i + 2 * len \<le> length s \<and> take len (drop i s) = take len (drop (i + len) s) \<and>
      list_all is_alnum (take len (drop i s)))"

definition spec_call_sign :: "string \<Rightarrow> bool" where
  "spec_call_sign s = list_ex (\<lambda>len. list_ex (repeated_at s len) [0..<length s]) [3, 4, 5]"

definition spec_call_sign_before_end :: "string \<Rightarrow> bool" where
  "spec_call_sign_before_end s =
     list_ex (\<lambda>len. list_ex (\<lambda>i. i + 2 * len < length s \<and> repeated_at s len i) [0..<length s])
       [3, 4, 5]"

section \<open>Configurations the statements refer to\<close>

text \<open>
  The tone table and the tolerance as \<^verbatim>\<open>__init__\<close> sets them; no method of the class
  changes either.
\<close>

definition default_tones :: "decoder \<Rightarrow> bool" where
  "default_tones d =
     (uvb76_frequencies d = [(''freq_1'', 21.53), (''freq_2'', 26.92), (''freq_3'', 32.30)] \<and>
      freq_tolerance d = 0.5)"

text \<open>
  The bit accumulation of successive analysis passes: each pass hands one peak frequency
  and its time stamp to the classifier. \<open>decoded_bits\<close> lists the bits the classifier
  returns for them, in order.
\<close>

definition accumulate_bits :: "decoder \<Rightarrow> (real \<times> real) list \<Rightarrow> decoder" where
  "accumulate_bits d peaks =
     foldl (\<lambda>d (peak_freq, current_time). accumulate_bit d peak_freq current_time) d peaks"

definition decoded_bits :: "decoder \<Rightarrow> (real \<times> real) list \<Rightarrow> int list" where
  "decoded_bits d peaks =
     List.map_filter (\<lambda>(peak_freq, current_time). frequency_to_binary_debug d peak_freq) peaks"

text \<open>
  The state behind the spectral front end: the frequency and time buffers, the bit buffer
  and the bit and frequency logs, and the FSK state with its history.
\<close>

definition downstream ::
  "decoder \<Rightarrow> real list \<times> real list \<times> int list \<times> bit_entry list \<times> freq_entry list \<times>
     string option \<times> real option \<times> fsk_event list" where
  "downstream d =
     (frequency_buffer d, time_buffer d, binary_buffer d, binary_log d, frequency_log d,
      current_fsk_state d, last_fsk_change d, fsk_state_history d)"

text \<open>A bit stream for the Monolit heuristic: the eight ASCII characters \<^verbatim>\<open>12345 AB\<close>.\<close>

definition id_bits :: "int list" where
  "id_bits = [0, 0, 1, 1, 0, 0, 0, 1, 0, 0, 1, 1, 0, 0, 1, 0, 0, 0, 1, 1, 0, 0, 1, 1, 0, 0, 1, 1, 0, 1, 0, 0, 0, 0, 1, 1, 0, 1, 0, 1, 0, 0, 1, 0, 0, 0, 0, 0, 0, 1, 0, 0, 0, 0, 0, 1, 0, 1, 0, 0, 0, 0, 1, 0]"

text \<open>
  Four more bit streams, the ASCII characters of \<^verbatim>\<open>abcd....\<close>, of \<^verbatim>\<open>..ABCABC\<close>, of
  \<^verbatim>\<open>ABCABC..\<close> and of \<^verbatim>\<open>ABCABC 12345 12345678\<close> followed by a space.
\<close>

definition lower_word_bits :: "int list" where
  "lower_word_bits = [0, 1, 1, 0, 0, 0, 0, 1, 0, 1, 1, 0, 0, 0, 1, 0, 0, 1, 1, 0, 0, 0, 1, 1, 0, 1, 1, 0, 0, 1, 0, 0, 0, 0, 1, 0, 1, 1, 1, 0, 0, 0, 1, 0, 1, 1, 1, 0, 0, 0, 1, 0, 1, 1, 1, 0, 0, 0, 1, 0, 1, 1, 1, 0]"

definition tail_callsign_bits :: "int list" where
  "tail_callsign_bits = [0, 0, 1, 0, 1, 1, 1, 0, 0, 0, 1, 0, 1, 1, 1, 0, 0, 1, 0, 0, 0, 0, 0, 1, 0, 1, 0, 0, 0, 0, 1, 0, 0, 1, 0, 0, 0, 0, 1, 1, 0, 1, 0, 0, 0, 0, 0, 1, 0, 1, 0, 0, 0, 0, 1, 0, 0, 1, 0, 0, 0, 0, 1, 1]"

definition callsign_bits :: "int list" where
  "callsign_bits = [0, 1, 0, 0, 0, 0, 0, 1, 0, 1, 0, 0, 0, 0, 1, 0, 0, 1, 0, 0, 0, 0, 1, 1, 0, 1, 0, 0, 0, 0, 0, 1, 0, 1, 0, 0, 0, 0, 1, 0, 0, 1, 0, 0, 0, 0, 1, 1, 0, 0, 1, 0, 1, 1, 1, 0, 0, 0, 1, 0, 1, 1, 1, 0]"

definition station_bits :: "int list" where
  "station_bits = [0, 1, 0, 0, 0, 0, 0, 1, 0, 1, 0, 0, 0, 0, 1, 0, 0, 1, 0, 0, 0, 0, 1, 1, 0, 1, 0, 0, 0, 0, 0, 1, 0, 1, 0, 0, 0, 0, 1, 0, 0, 1, 0, 0, 0, 0, 1, 1, 0, 0, 1, 0, 0, 0, 0, 0, 0, 0, 1, 1, 0, 0, 0, 1, 0, 0, 1, 1, 0, 0, 1, 0, 0, 0, 1, 1, 0, 0, 1, 1, 0, 0, 1, 1, 0, 1, 0, 0, 0, 0, 1, 1, 0, 1, 0, 1, 0, 0, 1, 0, 0, 0, 0, 0, 0, 0, 1, 1, 0, 0, 0, 1, 0, 0, 1, 1, 0, 0, 1, 0, 0, 0, 1, 1, 0, 0, 1, 1, 0, 0, 1, 1, 0, 1, 0, 0, 0, 0, 1, 1, 0, 1, 0, 1, 0, 0, 1, 1, 0, 1, 1, 0, 0, 0, 1, 1, 0, 1, 1, 1, 0, 0, 1, 1, 1, 0, 0, 0, 0, 0, 1, 0, 0, 0, 0, 0]"

section \<open>Verified properties\<close>

subsection \<open>The two classifiers\<close>

text \<open>
  Claim C10. For every frequency the plain classifier and the debug classifier return
  the same value: both are the same chain of tolerance tests, and the extra in-band test
  of the debug variant returns \<^verbatim>\<open>None\<close> on either side.
\<close>

theorem frequency_to_binary_eq_debug:
  "frequency_to_binary d frequency = frequency_to_binary_debug d frequency"
  by (simp add: frequency_to_binary_def frequency_to_binary_debug_def Let_def)

lemma classify_default:
  assumes "default_tones d"
  shows "frequency_to_binary_debug d f =
           (if \<bar>f - 21.53\<bar> \<le> 0.5 then Some 0 else if \<bar>f - 26.92\<bar> \<le> 0.5 then Some 1 else None)"
proof -
  from assms have t: "tone d ''freq_1'' = 21.53" "tone d ''freq_2'' = 26.92"
    "tone d ''freq_3'' = 32.30" "freq_tolerance d = 0.5"
    by (simp_all add: default_tones_def tone_def)
  show ?thesis
    unfolding frequency_to_binary_debug_def Let_def t by simp
qed



subsection \<open>The duration of an FSK event\<close>

text \<open>
  Claim C1. The claim asks for the event of a label change to carry the time since the
  previous change. The method overwrites \<^verbatim>\<open>last_fsk_change\<close> with the current time
  before it builds the event, so the difference it stores is the current time minus
  itself: whenever the label differs from the current one, the appended event has
  duration 0, whatever the time of the previous change was.
\<close>

theorem fsk_event_duration_zero:
  assumes "Some (fsk_label fmt2 d frequency) \<noteq> current_fsk_state d"
  shows "fsk_state_history (fst (update_fsk_state fmt2 d frequency magnitude current_time)) =
           deque_append 50 (fsk_state_history d)
             \<lparr>ev_state = fsk_label fmt2 d frequency, ev_frequency = frequency,
              ev_magnitude = magnitude, ev_timestamp = current_time, ev_duration = 0\<rparr>"
  using assms by (simp add: update_fsk_state_def Let_def or_time_def)

text \<open>
  Two label changes five seconds apart, at times 100 and 105: the second event records
  duration 0, not 5.
\<close>

theorem fsk_event_duration_zero_witness:
  "(let d1 = fst (update_fsk_state (\<lambda>x. []) init_decoder 21.53 20 100);
        d2 = fst (update_fsk_state (\<lambda>x. []) d1 26.92 20 105)
    in Some (fsk_label (\<lambda>x. []) d1 26.92) \<noteq> current_fsk_state d1 \<and>
       map ev_timestamp (fsk_state_history d2) = [100, 105] \<and>
       map ev_duration (fsk_state_history d2) = [0, 0])"
proof -
  define d1 where "d1 = fst (update_fsk_state (\<lambda>x. []) init_decoder 21.53 20 100)"
  have l0: "fsk_label (\<lambda>x. []) init_decoder 21.53 = ''FSK-1 (Hz)''"
    by (simp add: fsk_label_def tone_def init_decoder_def)
  have h0: "Some (fsk_label (\<lambda>x. []) init_decoder 21.53) \<noteq> current_fsk_state init_decoder"
    by (simp add: init_decoder_def)
  have s1: "current_fsk_state d1 = Some ''FSK-1 (Hz)''"
    unfolding d1_def using h0 l0 by (simp add: update_fsk_state_def Let_def)
  have c1: "uvb76_frequencies d1 = uvb76_frequencies init_decoder \<and>
            freq_tolerance d1 = freq_tolerance init_decoder"
    unfolding d1_def by (simp add: update_fsk_state_def Let_def)
  have l1: "fsk_label (\<lambda>x. []) d1 26.92 = ''FSK-2 (Hz)''"
    using c1 by (simp add: fsk_label_def tone_def init_decoder_def)
  have h1: "Some (fsk_label (\<lambda>x. []) d1 26.92) \<noteq> current_fsk_state d1"
    using l1 s1 by simp
  have e1: "fsk_state_history d1 =
      [\<lparr>ev_state = ''FSK-1 (Hz)'', ev_frequency = 21.53, ev_magnitude = 20,
        ev_timestamp = 100, ev_duration = 0\<rparr>]"
    unfolding d1_def using fsk_event_duration_zero [OF h0, of 20 100] l0
    by (simp add: deque_append_def init_decoder_def)
  have e2: "fsk_state_history (fst (update_fsk_state (\<lambda>x. []) d1 26.92 20 105)) =
      [\<lparr>ev_state = ''FSK-1 (Hz)'', ev_frequency = 21.53, ev_magnitude = 20,
        ev_timestamp = 100, ev_duration = 0\<rparr>,
       \<lparr>ev_state = ''FSK-2 (Hz)'', ev_frequency = 26.92, ev_magnitude = 20,
        ev_timestamp = 105, ev_duration = 0\<rparr>]"
    using fsk_event_duration_zero [OF h1, of 20 105] l1 e1 by (simp add: deque_append_def)
  show ?thesis
    using h1 e2 unfolding d1_def [symmetric] Let_def by simp
qed

subsection \<open>What a session start resets\<close>

text \<open>While the session is streaming, the producer counts the bytes of every chunk.\<close>

lemma receive_chunks:
  assumes "is_streaming d" and "[] \<notin> set chunks"
  shows "foldl receive_chunk d chunks =
           d\<lparr>bytes_received := bytes_received d + sum_list (map length chunks)\<rparr>"
  using assms by (induction chunks arbitrary: d) (simp_all add: receive_chunk_def)

text \<open>
  Claim C5 says that directly after a session start the frequency, binary, time,
  audio-level, waterfall and FSK-state-history buffers and the three logs are empty and
  the bytes-received and chunks-processed counters are zero. The code does not do that.
  A first session receives five chunks, 16385 bytes in all, runs one analysis pass on
  them (an odd number of bytes, which no interpretation parses) and records one FSK
  label change; it is stopped and a second session is started. The block of
  \<^verbatim>\<open>start_stream\<close> that initialises the session and clears the buffers and logs has
  emptied the four buffers, the waterfall lists and the logs and has set the new start
  time, but the counters still read 16385 bytes and 1 chunk and the FSK history still
  holds the event of the first session.
\<close>

theorem start_stream_keeps_counter_and_history:
  "(let d0 = start_stream init_decoder ''http://host/stream'' 50;
        d1 = foldl receive_chunk d0
               [replicate 4096 0, replicate 4096 0, replicate 4096 0, replicate 4095 0,
                replicate 2 0];
        d2 = process_audio_chunk (\<lambda>x. []) (\<lambda>w. 0) (\<lambda>xs. xs) d1 (replicate 16385 0) 100 100;
        d3 = fst (update_fsk_state (\<lambda>x. []) d2 21.53 20 101);
        d4 = stop_stream d3;
        d5 = start_stream d4 ''http://host/stream'' 200
    in is_streaming d5 \<and> session_start_time d5 = Some 200 \<and>
       frequency_buffer d5 = [] \<and> binary_buffer d5 = [] \<and> time_buffer d5 = [] \<and>
       audio_level_buffer d5 = [] \<and> waterfall_data d5 = [] \<and> waterfall_times d5 = [] \<and>
       binary_log d5 = [] \<and> frequency_log d5 = [] \<and> waterfall_log d5 = [] \<and>
       bytes_received d5 = 16385 \<and> chunks_processed d5 = 1 \<and>
       map ev_state (fsk_state_history d5) = [''FSK-1 (Hz)''])"
proof -
  have "foldl receive_chunk (start_stream init_decoder ''http://host/stream'' 50)
          [replicate 4096 0, replicate 4096 0, replicate 4096 0, replicate 4095 0, replicate 2 0] =
        (start_stream init_decoder ''http://host/stream'' 50)\<lparr>bytes_received := 16385\<rparr>"
    by (subst receive_chunks) (simp_all add: start_stream_def init_decoder_def)
  then show ?thesis
    by (simp add: process_audio_chunk_def decode_audio_def frombuffer16_def frombuffer32_def
        update_fsk_state_def fsk_label_def tone_def start_stream_def deque_append_def
        stop_stream_def init_decoder_def Let_def)
qed

subsection \<open>Audio decoding order\<close>

text \<open>
  The value of a 16-bit word assembled from two bytes, and its reading as a signed
  number.
\<close>

lemma uint_byte_up: "uint (ucast (b :: 8 word) :: 16 word) = uint b"
  by (rule uint_up_ucast) (simp add: is_up)

lemma uint_push8: "uint (push_bit 8 (ucast (b :: 8 word) :: 16 word)) = 256 * uint b"
proof -
  have "uint b < 2 ^ 8" using uint_lt2p [of b] by simp
  then have t: "take_bit 8 (uint b) = uint b" by (simp add: take_bit_int_eq_self)
  have "uint (push_bit 8 (ucast b :: 16 word)) =
      take_bit LENGTH(16) (push_bit 8 (uint (ucast b :: 16 word)))"
    by (rule unsigned_push_bit_eq)
  then have "uint (push_bit 8 (ucast b :: 16 word)) = push_bit 8 (take_bit 8 (uint b))"
    by (simp add: uint_byte_up take_bit_push_bit)
  with t show ?thesis by (simp add: push_bit_eq_mult)
qed

lemma uint_16_of_bytes:
  "uint (or (push_bit 8 (ucast (hi :: 8 word))) (ucast (lo :: 8 word)) :: 16 word) =
     uint lo + 256 * uint hi"
proof -
  have d: "\<not> bit (push_bit 8 (uint hi)) n \<or> \<not> bit (uint lo) n" for n
    by (auto simp: bit_push_bit_iff_int bit_uint_iff)
  have "uint (or (push_bit 8 (ucast hi)) (ucast lo) :: 16 word) =
      or (256 * uint hi) (uint lo)"
    by (simp only: uint_or uint_push8 uint_byte_up)
  also have "\<dots> = or (push_bit 8 (uint hi)) (uint lo)"
    by (simp add: push_bit_eq_mult mult.commute)
  also have "\<dots> = push_bit 8 (uint hi) + uint lo" by (rule disjunctive_add [OF d, symmetric])
  finally show ?thesis by (simp add: push_bit_eq_mult)
qed

lemma sint_16: "sint (w :: 16 word) = (if uint w < 32768 then uint w else uint w - 65536)"
proof -
  have b: "0 \<le> uint w" "uint w < 65536" using uint_lt2p [of w] by simp_all
  show ?thesis
  proof (cases "uint w < 32768")
    case True
    with b have "(uint w + 32768) mod 65536 = uint w + 32768" by simp
    with True show ?thesis
      by (simp add: sint_uint signed_take_bit_eq_take_bit_shift take_bit_eq_mod)
  next
    case False
    with b have "(uint w + 32768) mod 65536 = uint w + 32768 - 65536"
      by (simp add: mod_pos_geq)
    with False show ?thesis
      by (simp add: sint_uint signed_take_bit_eq_take_bit_shift take_bit_eq_mod)
  qed
qed

text \<open>
  The samples of the int16 readings, written out: sample \<open>k\<close> of the little-endian
  reading is byte \<open>2k\<close> plus 256 times byte \<open>2k + 1\<close>, taken as a signed 16-bit number and
  divided by 32768.
\<close>

lemma length_items16: "length (items16 f bs) = length bs div 2"
  by (induction f bs rule: items16.induct) simp_all

lemma length_items32: "length (items32 bs) = length bs div 4"
  by (induction bs rule: items32.induct) simp_all

lemma items16_nth:
  "k < length bs div 2 \<Longrightarrow> items16 f bs ! k = f (bs ! (2 * k)) (bs ! (2 * k + 1))"
proof (induction f bs arbitrary: k rule: items16.induct)
  case (1 f b0 b1 bs)
  then show ?case by (cases k) simp_all
qed simp_all

lemma normalize16_le16:
  "normalize16 (le16 b0 b1) =
     real_of_int (let u = uint b0 + 256 * uint b1 in if u < 32768 then u else u - 65536) / 32768"
  by (simp add: normalize16_def le16_def sint_16 uint_16_of_bytes Let_def)

lemma int16_le_samples:
  "map normalize16 (items16 le16 bs) =
     map (\<lambda>k. real_of_int (let u = uint (bs ! (2 * k)) + 256 * uint (bs ! (2 * k + 1))
                              in if u < 32768 then u else u - 65536) / 32768)
       [0..<length bs div 2]"
  by (rule nth_equalityI) (simp_all add: length_items16 items16_nth normalize16_le16)

text \<open>
  A buffer long enough for 100 float32 items holds 200 int16 items, so the first attempt
  already succeeds whenever the second or third could: the result is the little-endian
  int16 reading or nothing.
\<close>

lemma decode_audio_int16_le:
  "decode_audio f32 bs =
     (if even (length bs) \<and> 200 \<le> length bs then Some (map normalize16 (items16 le16 bs)) else None)"
  by (auto simp: decode_audio_def frombuffer16_def frombuffer32_def Let_def
      length_items16 length_items32)

text \<open>The float32 and the big-endian readings, written out in the same way.\<close>

lemma uint_byte_up32: "uint (ucast (b :: 8 word) :: 32 word) = uint b"
  by (rule uint_up_ucast) (simp add: is_up)

lemma uint_push32:
  assumes "n \<le> 24"
  shows "uint (push_bit n (ucast (b :: 8 word) :: 32 word)) = push_bit n (uint b)"
proof -
  have "uint b < 2 ^ 8" using uint_lt2p [of b] by simp
  also have "(2 :: int) ^ 8 \<le> 2 ^ (32 - n)" using assms by (intro power_increasing) simp_all
  finally have t: "take_bit (32 - n) (uint b) = uint b" by (simp add: take_bit_int_eq_self)
  have "uint (push_bit n (ucast b :: 32 word)) =
      take_bit LENGTH(32) (push_bit n (uint (ucast b :: 32 word)))"
    by (rule unsigned_push_bit_eq)
  also have "\<dots> = take_bit 32 (push_bit n (uint b))"
    by (simp only: uint_byte_up32) simp
  also have "\<dots> = push_bit n (take_bit (32 - n) (uint b))"
    by (rule take_bit_push_bit)
  also have "\<dots> = push_bit n (uint b)"
    by (simp only: t)
  finally show ?thesis .
qed

lemma uint_le32:
  "uint (le32 b0 b1 b2 b3) = uint b0 + 256 * uint b1 + 65536 * uint b2 + 16777216 * uint b3"
proof -
  have p8: "uint (push_bit 8 (ucast b :: 32 word)) = push_bit 8 (uint b)" for b :: "8 word"
    by (rule uint_push32) simp
  have p16: "uint (push_bit 16 (ucast b :: 32 word)) = push_bit 16 (uint b)" for b :: "8 word"
    by (rule uint_push32) simp
  have p24: "uint (push_bit 24 (ucast b :: 32 word)) = push_bit 24 (uint b)" for b :: "8 word"
    by (rule uint_push32) simp
  have "uint (le32 b0 b1 b2 b3) =
      or (push_bit 24 (uint b3)) (or (push_bit 16 (uint b2)) (or (push_bit 8 (uint b1)) (uint b0)))"
    by (simp only: le32_def uint_or p8 p16 p24 uint_byte_up32)
  also have "\<dots> = push_bit 24 (uint b3) + (push_bit 16 (uint b2) + (push_bit 8 (uint b1) + uint b0))"
  proof -
    have 1: "push_bit 8 (uint b1) + uint b0 = or (push_bit 8 (uint b1)) (uint b0)"
      by (rule disjunctive_add) (auto simp: bit_push_bit_iff_int bit_uint_iff)
    have 2: "push_bit 16 (uint b2) + or (push_bit 8 (uint b1)) (uint b0) =
        or (push_bit 16 (uint b2)) (or (push_bit 8 (uint b1)) (uint b0))"
      by (rule disjunctive_add) (auto simp: bit_push_bit_iff_int bit_uint_iff bit_or_iff)
    have 3: "push_bit 24 (uint b3) + or (push_bit 16 (uint b2)) (or (push_bit 8 (uint b1)) (uint b0)) =
        or (push_bit 24 (uint b3)) (or (push_bit 16 (uint b2)) (or (push_bit 8 (uint b1)) (uint b0)))"
      by (rule disjunctive_add) (auto simp: bit_push_bit_iff_int bit_uint_iff bit_or_iff)
    show ?thesis by (simp only: 1 2 3)
  qed
  finally show ?thesis by (simp add: push_bit_eq_mult)
qed

lemma le32_value:
  "le32 b0 b1 b2 b3 =
     word_of_int (uint b0 + 256 * uint b1 + 65536 * uint b2 + 16777216 * uint b3)"
  by (simp only: uint_le32 [symmetric] word_of_int_uint)

lemma items32_nth:
  "k < length bs div 4 \<Longrightarrow>
   items32 bs ! k = le32 (bs ! (4 * k)) (bs ! (4 * k + 1)) (bs ! (4 * k + 2)) (bs ! (4 * k + 3))"
proof (induction bs arbitrary: k rule: items32.induct)
  case (1 b0 b1 b2 b3 bs)
  show ?case
  proof (cases k)
    case 0
    then show ?thesis by simp
  next
    case (Suc n)
    have e: "4 * k = Suc (Suc (Suc (Suc (4 * n))))" "4 * k + 1 = Suc (Suc (Suc (Suc (4 * n + 1))))"
      "4 * k + 2 = Suc (Suc (Suc (Suc (4 * n + 2))))" "4 * k + 3 = Suc (Suc (Suc (Suc (4 * n + 3))))"
      using Suc by simp_all
    have "n < length bs div 4" using "1.prems" Suc by simp
    from "1.IH" [OF this] show ?thesis
      unfolding e Suc by (simp add: ac_simps)
  qed
qed simp_all


lemma normalize16_be16:
  "normalize16 (be16 b0 b1) =
     real_of_int (let u = 256 * uint b0 + uint b1 in if u < 32768 then u else u - 65536) / 32768"
  by (simp add: normalize16_def be16_def sint_16 uint_16_of_bytes Let_def add.commute)

lemma int16_be_samples:
  "map normalize16 (items16 be16 bs) =
     map (\<lambda>k. real_of_int (let u = 256 * uint (bs ! (2 * k)) + uint (bs ! (2 * k + 1))
                              in if u < 32768 then u else u - 65536) / 32768)
       [0..<length bs div 2]"
  by (rule nth_equalityI) (simp_all add: length_items16 items16_nth normalize16_be16)

lemma float32_samples:
  "map f32 (items32 bs) =
     map (\<lambda>k. f32 (word_of_int (uint (bs ! (4 * k)) + 256 * uint (bs ! (4 * k + 1)) +
                        65536 * uint (bs ! (4 * k + 2)) + 16777216 * uint (bs ! (4 * k + 3)))))
       [0..<length bs div 4]"
  by (rule nth_equalityI) (simp_all add: length_items32 items32_nth le32_value)

lemma interpretations_explicit:
  "interpretations f32 bs =
     [if length bs mod 2 \<noteq> 0
      then Inl (ValueError ''buffer size must be a multiple of element size'')
      else Inr (map (\<lambda>k. real_of_int (let u = uint (bs ! (2 * k)) + 256 * uint (bs ! (2 * k + 1))
                                       in if u < 32768 then u else u - 65536) / 32768)
                  [0..<length bs div 2]),
      if length bs mod 4 \<noteq> 0
      then Inl (ValueError ''buffer size must be a multiple of element size'')
      else Inr (map (\<lambda>k. f32 (word_of_int (uint (bs ! (4 * k)) + 256 * uint (bs ! (4 * k + 1)) +
                                 65536 * uint (bs ! (4 * k + 2)) + 16777216 * uint (bs ! (4 * k + 3)))))
                  [0..<length bs div 4]),
      if length bs mod 2 \<noteq> 0
      then Inl (ValueError ''buffer size must be a multiple of element size'')
      else Inr (map (\<lambda>k. real_of_int (let u = 256 * uint (bs ! (2 * k)) + uint (bs ! (2 * k + 1))
                                       in if u < 32768 then u else u - 65536) / 32768)
                  [0..<length bs div 2])]"
proof -
  have a: "map_sum id (map normalize16) (frombuffer16 le16 bs) =
      (if length bs mod 2 \<noteq> 0
       then Inl (ValueError ''buffer size must be a multiple of element size'')
       else Inr (map (\<lambda>k. real_of_int (let u = uint (bs ! (2 * k)) + 256 * uint (bs ! (2 * k + 1))
                                        in if u < 32768 then u else u - 65536) / 32768)
                   [0..<length bs div 2]))"
    by (simp add: frombuffer16_def int16_le_samples)
  have b: "map_sum id (map f32) (frombuffer32 bs) =
      (if length bs mod 4 \<noteq> 0
       then Inl (ValueError ''buffer size must be a multiple of element size'')
       else Inr (map (\<lambda>k. f32 (word_of_int (uint (bs ! (4 * k)) + 256 * uint (bs ! (4 * k + 1)) +
                                  65536 * uint (bs ! (4 * k + 2)) + 16777216 * uint (bs ! (4 * k + 3)))))
                   [0..<length bs div 4]))"
    by (simp add: frombuffer32_def float32_samples)
  have c: "map_sum id (map normalize16) (frombuffer16 be16 bs) =
      (if length bs mod 2 \<noteq> 0
       then Inl (ValueError ''buffer size must be a multiple of element size'')
       else Inr (map (\<lambda>k. real_of_int (let u = 256 * uint (bs ! (2 * k)) + uint (bs ! (2 * k + 1))
                                        in if u < 32768 then u else u - 65536) / 32768)
                   [0..<length bs div 2]))"
    by (simp add: frombuffer16_def int16_be_samples)
  show ?thesis by (simp only: interpretations_def a b c)
qed

text \<open>
  Claim C3. The decoder returns the first of the three interpretations, in the order
  int16 little-endian (divided by 32768), float32 (as it is), int16 big-endian (divided
  by 32768), that parses and has at least 100 samples; so a buffer with at least 100
  samples under both the int16 little-endian and the float32 reading decodes to the
  int16 little-endian samples divided by 32768. The three interpretations are given
  byte by byte: low byte first for little-endian, high byte first for big-endian, the
  sign taken at 32768, the quotient by 32768; the float32 reading applies the value of
  a 32-bit pattern to four bytes, lowest first.
\<close>

theorem decode_audio_priority:
  "decode_audio f32 bs = first_long_enough (interpretations f32 bs) \<and>
   (frombuffer16 le16 bs = Inr a \<and> 100 \<le> length a \<and> frombuffer32 bs = Inr b \<and> 100 \<le> length b
      \<longrightarrow> decode_audio f32 bs = Some (map normalize16 a)) \<and>
   (even (length bs) \<and> 200 \<le> length bs \<longrightarrow>
      decode_audio f32 bs =
        Some (map (\<lambda>k. real_of_int (let u = uint (bs ! (2 * k)) + 256 * uint (bs ! (2 * k + 1))
                                     in if u < 32768 then u else u - 65536) / 32768)
                [0..<length bs div 2])) \<and>
   interpretations f32 bs =
     [if length bs mod 2 \<noteq> 0
      then Inl (ValueError ''buffer size must be a multiple of element size'')
      else Inr (map (\<lambda>k. real_of_int (let u = uint (bs ! (2 * k)) + 256 * uint (bs ! (2 * k + 1))
                                       in if u < 32768 then u else u - 65536) / 32768)
                  [0..<length bs div 2]),
      if length bs mod 4 \<noteq> 0
      then Inl (ValueError ''buffer size must be a multiple of element size'')
      else Inr (map (\<lambda>k. f32 (word_of_int (uint (bs ! (4 * k)) + 256 * uint (bs ! (4 * k + 1)) +
                                 65536 * uint (bs ! (4 * k + 2)) + 16777216 * uint (bs ! (4 * k + 3)))))
                  [0..<length bs div 4]),
      if length bs mod 2 \<noteq> 0
      then Inl (ValueError ''buffer size must be a multiple of element size'')
      else Inr (map (\<lambda>k. real_of_int (let u = 256 * uint (bs ! (2 * k)) + uint (bs ! (2 * k + 1))
                                       in if u < 32768 then u else u - 65536) / 32768)
                  [0..<length bs div 2])]"
proof -
  have 1: "decode_audio f32 bs = first_long_enough (interpretations f32 bs)"
    by (auto simp: decode_audio_def interpretations_def frombuffer16_def frombuffer32_def Let_def
        length_items16 length_items32)
  have 2: "decode_audio f32 bs = Some (map normalize16 a)"
    if "frombuffer16 le16 bs = Inr a" "100 \<le> length a"
    using that by (auto simp: decode_audio_def Let_def)
  have 3: "decode_audio f32 bs =
        Some (map (\<lambda>k. real_of_int (let u = uint (bs ! (2 * k)) + 256 * uint (bs ! (2 * k + 1))
                                     in if u < 32768 then u else u - 65536) / 32768)
                [0..<length bs div 2])"
    if "even (length bs)" "200 \<le> length bs"
    using that by (simp add: decode_audio_int16_le int16_le_samples)
  from 1 2 3 interpretations_explicit [of f32 bs] show ?thesis by blast
qed

text \<open>
  The two bytes 1 and 128 followed by 398 zero bytes: 200 int16 items and 100 float32
  items. The first sample is \<open>- 32767 / 32768\<close>, the little-endian reading of the two
  bytes; read big-endian it would be \<open>384 / 32768\<close>, and as float32 the constant 1 of this
  value function.
\<close>

theorem decode_audio_priority_witness:
  "even (length ([1, 128] @ replicate 398 (0 :: byte))) \<and>
   200 \<le> length ([1, 128] @ replicate 398 (0 :: byte)) \<and>
   frombuffer16 le16 ([1, 128] @ replicate 398 0) =
     Inr (items16 le16 ([1, 128] @ replicate 398 0)) \<and>
   100 \<le> length (items16 le16 ([1, 128] @ replicate 398 0)) \<and>
   frombuffer32 ([1, 128] @ replicate 398 0) = Inr (items32 ([1, 128] @ replicate 398 0)) \<and>
   100 \<le> length (items32 ([1, 128] @ replicate 398 0)) \<and>
   decode_audio (\<lambda>w. 1) ([1, 128] @ replicate 398 0) =
     Some (map normalize16 (items16 le16 ([1, 128] @ replicate 398 0))) \<and>
   map_option (\<lambda>xs. (length xs, xs ! 0, xs ! 1))
     (decode_audio (\<lambda>w. 1) ([1, 128] @ replicate 398 0)) = Some (200, - 32767 / 32768, 0)"
proof -
  define bs :: "byte list" where "bs = [1, 128] @ replicate 398 0"
  have l: "even (length bs)" "200 \<le> length bs" "length bs div 2 = 200"
    by (simp_all add: bs_def)
  have a: "frombuffer16 le16 bs = Inr (items16 le16 bs)" "100 \<le> length (items16 le16 bs)"
    by (simp_all add: frombuffer16_def length_items16 bs_def)
  have b: "frombuffer32 bs = Inr (items32 bs)" "100 \<le> length (items32 bs)"
    by (simp_all add: frombuffer32_def length_items32 bs_def)
  have n: "bs ! 0 = 1" "bs ! 1 = 128" "bs ! 2 = 0" "bs ! 3 = 0"
    by (simp_all add: bs_def nth_append)
  note t = decode_audio_priority [of "\<lambda>w. 1" bs "items16 le16 bs" "items32 bs"]
  from t a b have first: "decode_audio (\<lambda>w. 1) bs = Some (map normalize16 (items16 le16 bs))"
    by blast
  from t l(1,2)
  have "decode_audio (\<lambda>w. 1) bs =
      Some (map (\<lambda>k. real_of_int (let u = uint (bs ! (2 * k)) + 256 * uint (bs ! (2 * k + 1))
                                   in if u < 32768 then u else u - 65536) / 32768)
              [0..<length bs div 2])"
    by blast
  then have "map_option (\<lambda>xs. (length xs, xs ! 0, xs ! 1)) (decode_audio (\<lambda>w. 1) bs) =
      Some (200, - 32767 / 32768, 0)"
    using n l(3) by (simp add: Let_def)
  with l a b first show ?thesis unfolding bs_def by blast
qed

subsection \<open>The bounded bit buffer and the bit log\<close>

lemma deque_append_window:
  assumes "buf = drop (length all - m) all" and "0 < m"
  shows "deque_append m buf x = drop (length (all @ [x]) - m) (all @ [x])"
proof (cases "length all < m")
  case True
  then show ?thesis using assms by (simp add: deque_append_def)
next
  case False
  define k where "k = length all - m"
  have k: "Suc k \<le> length all" "length (all @ [x]) - m = Suc k"
    using False assms(2) by (simp_all add: k_def)
  have ne: "drop k all \<noteq> []" using k by simp
  have len: "m < length (drop k all @ [x])" using False assms(2) by (simp add: k_def)
  have "deque_append m buf x = tl (drop k all @ [x])"
    using len assms(1) by (simp add: deque_append_def k_def)
  also have "\<dots> = tl (drop k all) @ [x]" using ne by simp
  also have "\<dots> = drop (Suc k) all @ [x]" by (simp add: drop_Suc tl_drop)
  also have "\<dots> = drop (Suc k) (all @ [x])" using k(1) by simp
  finally show ?thesis using k(2) by simp
qed

lemma accumulate_bit_config:
  "uvb76_frequencies (accumulate_bit d f t) = uvb76_frequencies d \<and>
   freq_tolerance (accumulate_bit d f t) = freq_tolerance d \<and>
   log_binary_var (accumulate_bit d f t) = log_binary_var d"
  by (cases "frequency_to_binary_debug d f") (simp_all add: accumulate_bit_def Let_def)

lemma classify_accumulate_bit [simp]:
  "frequency_to_binary_debug (accumulate_bit d f t) g = frequency_to_binary_debug d g"
  unfolding frequency_to_binary_debug_def tone_def Let_def
  by (simp only: accumulate_bit_config)

lemma log_flag_accumulate_bit [simp]:
  "log_binary_var (accumulate_bit d f t) = log_binary_var d"
  by (simp add: accumulate_bit_config)

lemma decoded_bits_Cons:
  "decoded_bits d ((f, t) # peaks) =
     (case frequency_to_binary_debug d f of None \<Rightarrow> [] | Some b \<Rightarrow> [b]) @ decoded_bits d peaks"
  by (simp add: decoded_bits_def split: option.splits)

lemma decoded_bits_accumulate_bit [simp]:
  "decoded_bits (accumulate_bit d f t) peaks = decoded_bits d peaks"
  by (simp add: decoded_bits_def)

lemma accumulate_bits_buffer:
  assumes "binary_buffer d = drop (length all - 500) all"
  shows "binary_buffer (accumulate_bits d peaks) =
           drop (length (all @ decoded_bits d peaks) - 500) (all @ decoded_bits d peaks)"
  using assms
proof (induction peaks arbitrary: d all)
  case Nil
  then show ?case by (simp add: accumulate_bits_def decoded_bits_def)
next
  case (Cons p peaks)
  obtain f t where p: "p = (f, t)" by (cases p)
  show ?case
  proof (cases "frequency_to_binary_debug d f")
    case None
    then have "accumulate_bit d f t = d" by (simp add: accumulate_bit_def)
    with Cons None p show ?thesis
      by (simp add: accumulate_bits_def decoded_bits_Cons)
  next
    case (Some b)
    have "binary_buffer (accumulate_bit d f t) = deque_append 500 (binary_buffer d) b"
      using Some by (simp add: accumulate_bit_def Let_def)
    also have "\<dots> = drop (length (all @ [b]) - 500) (all @ [b])"
      by (rule deque_append_window [OF Cons.prems]) simp
    finally have "binary_buffer (accumulate_bits (accumulate_bit d f t) peaks) =
        drop (length ((all @ [b]) @ decoded_bits (accumulate_bit d f t) peaks) - 500)
          ((all @ [b]) @ decoded_bits (accumulate_bit d f t) peaks)"
      by (rule Cons.IH)
    then show ?thesis using Some p
      by (simp add: accumulate_bits_def decoded_bits_Cons)
  qed
qed

lemma accumulate_bits_log:
  assumes "log_binary_var d"
  shows "map bl_binary_state (binary_log (accumulate_bits d peaks)) =
           map bl_binary_state (binary_log d) @ decoded_bits d peaks \<and>
         map bl_bit_number (binary_log (accumulate_bits d peaks)) =
           map bl_bit_number (binary_log d) @
             map (\<lambda>i. length (binary_log d) + i) [1..<length (decoded_bits d peaks) + 1]"
  using assms
proof (induction peaks arbitrary: d)
  case Nil
  then show ?case by (simp add: accumulate_bits_def decoded_bits_def)
next
  case (Cons p peaks)
  obtain f t where p: "p = (f, t)" by (cases p)
  have flag: "log_binary_var (accumulate_bit d f t)" using Cons.prems by simp
  note IH = Cons.IH [OF flag]
  show ?case
  proof (cases "frequency_to_binary_debug d f")
    case None
    then have "accumulate_bit d f t = d" by (simp add: accumulate_bit_def)
    with IH None p show ?thesis
      by (simp add: accumulate_bits_def decoded_bits_Cons)
  next
    case (Some b)
    have lg: "binary_log (accumulate_bit d f t) = binary_log d @
        [\<lparr>bl_timestamp = t, bl_session_time = session_time_of d t, bl_binary_state = b,
          bl_frequency = f, bl_bit_number = length (binary_log d) + 1\<rparr>]"
      using Some Cons.prems by (simp add: accumulate_bit_def Let_def session_time_of_def)
    have sh: "map (\<lambda>i. length (binary_log d) + i) [1..<Suc (Suc n)] =
        (length (binary_log d) + 1) # map (\<lambda>i. Suc (length (binary_log d)) + i) [1..<Suc n]" for n
      by (induction n) simp_all
    show ?thesis using IH Some p lg sh
      by (simp add: accumulate_bits_def decoded_bits_Cons)
  qed
qed

text \<open>
  Claim C6. Starting from an empty bit buffer and an empty bit log, after the bits
  decoded from a sequence of peaks have been appended in order, the bit buffer holds
  exactly the last \<open>min n 500\<close> of the \<open>n\<close> bits in their order; with binary logging on
  the log holds all \<open>n\<close> bits in order, numbered from 1, and with logging off it stays
  empty.
\<close>

theorem bit_buffer_keeps_last_500:
  assumes "binary_buffer d = []" and "binary_log d = []"
  shows "(let bits = decoded_bits d peaks; n = length bits; d' = accumulate_bits d peaks
          in binary_buffer d' = drop (n - 500) bits \<and>
             length (binary_buffer d') = min n 500 \<and>
             (if log_binary_var d
              then map bl_binary_state (binary_log d') = bits \<and>
                   map bl_bit_number (binary_log d') = [1..<n + 1]
              else binary_log d' = []))"
proof -
  have b: "binary_buffer (accumulate_bits d peaks) =
      drop (length (decoded_bits d peaks) - 500) (decoded_bits d peaks)"
    using accumulate_bits_buffer [of d "[]" peaks] assms(1) by simp
  have nolog: "binary_log (accumulate_bits d' peaks) = binary_log d'" if "\<not> log_binary_var d'" for d'
    using that
  proof (induction peaks arbitrary: d')
    case Nil
    then show ?case by (simp add: accumulate_bits_def)
  next
    case (Cons p peaks)
    obtain f t where p: "p = (f, t)" by (cases p)
    have "binary_log (accumulate_bit d' f t) = binary_log d'"
      using Cons.prems by (simp add: accumulate_bit_def Let_def split: option.splits)
    moreover have "\<not> log_binary_var (accumulate_bit d' f t)" using Cons.prems by simp
    ultimately show ?case using Cons.IH [of "accumulate_bit d' f t"] p
      by (simp add: accumulate_bits_def)
  qed
  have l: "map bl_binary_state (binary_log (accumulate_bits d peaks)) = decoded_bits d peaks \<and>
      map bl_bit_number (binary_log (accumulate_bits d peaks)) = [1..<length (decoded_bits d peaks) + 1]"
    if "log_binary_var d"
    using accumulate_bits_log [OF that, of peaks] assms(2) by (simp add: map_idI)
  show ?thesis
    using b l nolog [of d] assms(2) by (simp add: Let_def min_def)
qed


lemma decoded_bits_map:
  assumes "\<And>x. x \<in> set xs \<Longrightarrow> frequency_to_binary_debug d (fst (g x)) = Some (h x)"
  shows "decoded_bits d (map g xs) = map h xs"
  using assms
proof (induction xs)
  case Nil
  then show ?case by (simp add: decoded_bits_def)
next
  case (Cons a xs)
  obtain f t where g: "g a = (f, t)" by (cases "g a")
  have "frequency_to_binary_debug d f = Some (h a)"
    using Cons.prems [of a] g by simp
  then show ?case using Cons g by (simp add: decoded_bits_Cons)
qed

text \<open>
  600 alternating tones: the buffer holds bits 101 to 600 and the log all 600.
\<close>

theorem bit_buffer_keeps_last_500_witness:
  "binary_buffer init_decoder = [] \<and> binary_log init_decoder = [] \<and>
   binary_buffer (accumulate_bits init_decoder
       (map (\<lambda>i::nat. (if even i then 21.53 else 26.92, real i)) [0..<600])) =
     drop 100 (map (\<lambda>i::nat. if even i then 0 else 1) [0..<600]) \<and>
   length (binary_buffer (accumulate_bits init_decoder
       (map (\<lambda>i::nat. (if even i then 21.53 else 26.92, real i)) [0..<600]))) = 500 \<and>
   map bl_binary_state (binary_log (accumulate_bits init_decoder
       (map (\<lambda>i::nat. (if even i then 21.53 else 26.92, real i)) [0..<600]))) =
     map (\<lambda>i::nat. if even i then 0 else 1) [0..<600]"
proof -
  define P where "P = map (\<lambda>i::nat. (if even i then 21.53 else 26.92 :: real, real i)) [0..<600]"
  define B where "B = map (\<lambda>i::nat. if even i then 0 else 1 :: int) [0..<600]"
  have dt: "default_tones init_decoder"
    by (simp add: default_tones_def init_decoder_def)
  have db: "decoded_bits init_decoder P = B"
    unfolding P_def B_def
    by (rule decoded_bits_map) (simp add: classify_default [OF dt])
  have lenB: "length B = 600" by (simp add: B_def)
  have e: "binary_buffer init_decoder = []" "binary_log init_decoder = []"
    "log_binary_var init_decoder"
    by (simp_all add: init_decoder_def)
  from bit_buffer_keeps_last_500 [OF e(1) e(2), of P]
  have "binary_buffer (accumulate_bits init_decoder P) = drop 100 B \<and>
        length (binary_buffer (accumulate_bits init_decoder P)) = 500 \<and>
        map bl_binary_state (binary_log (accumulate_bits init_decoder P)) = B"
    using db lenB e(3) by (simp add: Let_def)
  then show ?thesis using e(1) e(2) unfolding P_def B_def by blast
qed

subsection \<open>Peak selection\<close>

lemma hd_sort_key_first_min:
  assumes "xs \<noteq> []"
  shows "hd (sort_key k xs) \<in> set xs \<and>
         (\<forall>x\<in>set xs. k (hd (sort_key k xs)) \<le> k x) \<and>
         hd (sort_key k xs) = hd (filter (\<lambda>x. k x = k (hd (sort_key k xs))) xs)"
proof -
  have "sort_key k xs \<noteq> []" using assms by (metis length_sort length_0_conv)
  then obtain y ys where s: "sort_key k xs = y # ys" by (cases "sort_key k xs") auto
  have mem: "set (y # ys) = set xs" using s by (metis set_sort)
  have "sorted (map k (y # ys))" using s by (metis sorted_sort_key)
  then have le: "\<forall>x\<in>set ys. k y \<le> k x" by simp
  have "filter (\<lambda>x. k x = k y) xs = filter (\<lambda>x. k x = k y) (y # ys)"
    using s by (metis sort_key_stable)
  then have "hd (filter (\<lambda>x. k x = k y) xs) = y" by simp
  with mem le s show ?thesis by auto
qed

lemma hd_filter_least:
  assumes "sorted_wrt (\<lambda>a b. idx a < (idx b :: nat)) xs" and "x \<in> set xs" and "P x"
  shows "idx (hd (filter P xs)) \<le> idx x"
proof -
  have s: "sorted_wrt (\<lambda>a b. idx a < idx b) (filter P xs)"
    using assms(1) by (rule sorted_wrt_filter)
  have m: "x \<in> set (filter P xs)" using assms(2,3) by simp
  then obtain y ys where f: "filter P xs = y # ys" by (cases "filter P xs") auto
  from s f have "\<forall>z\<in>set ys. idx y < idx z" by simp
  with m f show ?thesis by auto
qed

lemma in_significant_peaks:
  "(f, m, i) \<in> set (significant_peaks d rb) \<longleftrightarrow>
     i < length rb \<and> rb ! i = (f, m) \<and> min_signal_strength d \<le> m"
  by (auto simp: significant_peaks_def in_set_enumerate_eq image_iff)

lemma significant_peaks_index_sorted:
  "sorted_wrt (\<lambda>a b. snd (snd a) < snd (snd b)) (significant_peaks d rb)"
proof -
  have "sorted_wrt (<) (map fst (enumerate 0 rb))"
    by (simp add: map_fst_enumerate)
  then have "sorted_wrt (\<lambda>a b. fst a < fst b) (enumerate 0 rb)"
    unfolding sorted_wrt_map .
  then have "sorted_wrt (\<lambda>a b. fst a < fst b)
      (filter (\<lambda>(i, (freq, mag)). min_signal_strength d \<le> mag) (enumerate 0 rb))"
    by (rule sorted_wrt_filter)
  then show ?thesis
    by (simp add: significant_peaks_def sorted_wrt_map case_prod_unfold)
qed

lemma significant_peaks_empty:
  "significant_peaks d rb = [] \<longleftrightarrow> (\<forall>(f, m)\<in>set rb. m < min_signal_strength d)"
proof -
  have "set rb = snd ` set (enumerate 0 rb)"
    by (metis map_snd_enumerate set_map)
  then show ?thesis
    by (auto simp: significant_peaks_def filter_empty_conv not_le)
qed

lemma select_peak_Some_iff:
  "select_peak d freqs magnitude \<noteq> None \<longleftrightarrow>
     (\<exists>(f, m)\<in>set (zip freqs magnitude). 20 \<le> f \<and> f \<le> 34 \<and> min_signal_strength d \<le> m)"
proof -
  have "select_peak d freqs magnitude = None \<longleftrightarrow>
      significant_peaks d (in_band (zip freqs magnitude)) = []"
    by (cases "in_band (zip freqs magnitude) = []")
      (simp_all add: select_peak_def Let_def significant_peaks_def)
  then have "select_peak d freqs magnitude \<noteq> None \<longleftrightarrow>
      significant_peaks d (in_band (zip freqs magnitude)) \<noteq> []"
    by (rule arg_cong [where f = Not])
  also have "\<dots> \<longleftrightarrow> (\<exists>(f, m)\<in>set (in_band (zip freqs magnitude)). min_signal_strength d \<le> m)"
    by (auto simp: significant_peaks_empty not_less case_prod_unfold)
  also have "\<dots> \<longleftrightarrow>
      (\<exists>(f, m)\<in>set (zip freqs magnitude). 20 \<le> f \<and> f \<le> 34 \<and> min_signal_strength d \<le> m)"
    by (fastforce simp: in_band_def)
  finally show ?thesis .
qed

lemma select_peak_is_first_maximum:
  assumes "select_peak d freqs magnitude = Some (pf, pm, i)"
  defines "rb \<equiv> in_band (zip freqs magnitude)"
  shows "i < length rb \<and> rb ! i = (pf, pm) \<and> min_signal_strength d \<le> pm \<and>
         (\<forall>j<length rb. snd (rb ! j) \<le> pm) \<and> (\<forall>j<i. snd (rb ! j) < pm)"
proof -
  define peaks where "peaks = significant_peaks d rb"
  define k where "k = (\<lambda>(freq :: real, mag :: real, i :: nat). - mag)"
  have ne: "peaks \<noteq> []" and hd: "(pf, pm, i) = hd (sort_key k peaks)"
    using assms(1) unfolding select_peak_def Let_def peaks_def rb_def k_def
    by (auto split: if_splits)
  from hd_sort_key_first_min [OF ne, of k] hd
  have mem: "(pf, pm, i) \<in> set peaks"
    and least: "\<forall>x\<in>set peaks. k (pf, pm, i) \<le> k x"
    and first: "(pf, pm, i) = hd (filter (\<lambda>x. k x = k (pf, pm, i)) peaks)"
    by simp_all
  from mem have a: "i < length rb" "rb ! i = (pf, pm)" "min_signal_strength d \<le> pm"
    by (simp_all add: peaks_def in_significant_peaks)
  have b: "snd (rb ! j) \<le> pm" if "j < length rb" for j
  proof (cases "min_signal_strength d \<le> snd (rb ! j)")
    case True
    then have "(fst (rb ! j), snd (rb ! j), j) \<in> set peaks"
      using that by (simp add: peaks_def in_significant_peaks)
    with least show ?thesis by (auto simp: k_def)
  next
    case False
    with a(3) show ?thesis by simp
  qed
  have c: "snd (rb ! j) < pm" if "j < i" for j
  proof (rule ccontr)
    assume "\<not> snd (rb ! j) < pm"
    moreover have jl: "j < length rb" using that a(1) by simp
    ultimately have eq: "snd (rb ! j) = pm" using b [of j] by simp
    then have "rb ! j = (fst (rb ! j), pm)" by (metis prod.collapse)
    then have m: "(fst (rb ! j), pm, j) \<in> set peaks"
      using jl a(3) by (simp add: peaks_def in_significant_peaks)
    have "snd (snd (hd (filter (\<lambda>x. k x = k (pf, pm, i)) peaks))) \<le>
        snd (snd (fst (rb ! j), pm, j))"
      by (rule hd_filter_least [OF _ m])
        (simp_all add: peaks_def significant_peaks_index_sorted k_def)
    with first have "i \<le> j" by (metis snd_conv)
    with that show False by simp
  qed
  from a b c show ?thesis by blast
qed


lemma sorted_wrt_zip_fst:
  "sorted_wrt R xs \<Longrightarrow> sorted_wrt (\<lambda>a b. R (fst a) (fst b)) (zip xs ys)"
proof (induction xs arbitrary: ys)
  case Nil
  then show ?case by simp
next
  case (Cons x xs)
  show ?case
  proof (cases ys)
    case Nil
    then show ?thesis by simp
  next
    case (Cons y ys')
    with Cons.prems Cons.IH [of ys'] show ?thesis
      by (auto dest: set_zip_leftD)
  qed
qed

lemma in_band_fftfreq_sorted:
  assumes "0 < dd" and "0 < n"
  shows "sorted_wrt (\<lambda>a b. fst a < fst b) (in_band (zip (fftfreq n dd) magnitude))"
proof -
  define val where "val = 1 / (real n * dd)"
  define P where "P = map (\<lambda>k. real k * val) [0..<(n - 1) div 2 + 1]"
  define N where "N = map (\<lambda>k. (real k - real (n div 2)) * val) [0..<n div 2]"
  have val: "0 < val" using assms by (simp add: val_def)
  have F: "fftfreq n dd = P @ N"
    by (simp add: fftfreq_def Let_def P_def N_def val_def)
  have sP: "sorted_wrt (<) P"
    unfolding P_def sorted_wrt_map
    using val by (intro sorted_wrt_mono_rel [OF _ sorted_wrt_upt]) simp
  have negN: "\<forall>f\<in>set N. f < 0"
    using val by (auto simp: N_def mult_less_0_iff)
  have "in_band (zip N ms) = []" for ms
    using negN by (auto simp: in_band_def filter_empty_conv dest!: set_zip_leftD)
  then have "in_band (zip (fftfreq n dd) magnitude) = in_band (zip P (take (length P) magnitude))"
    by (simp add: F zip_append1 in_band_def)
  moreover have "sorted_wrt (\<lambda>a b. fst a < fst b) (in_band (zip P (take (length P) magnitude)))"
    unfolding in_band_def by (intro sorted_wrt_filter sorted_wrt_zip_fst sP)
  ultimately show ?thesis by simp
qed

lemma select_peak_lowest_frequency:
  assumes "0 < dd" and "0 < n"
    and "select_peak d (fftfreq n dd) magnitude = Some (pf, pm, i)"
    and "(f, pm) \<in> set (in_band (zip (fftfreq n dd) magnitude))"
  shows "pf \<le> f"
proof -
  define rb where "rb = in_band (zip (fftfreq n dd) magnitude)"
  from select_peak_is_first_maximum [OF assms(3)]
  have a: "i < length rb" "rb ! i = (pf, pm)" and c: "\<forall>j<i. snd (rb ! j) < pm"
    by (simp_all add: rb_def)
  from assms(4) obtain j where j: "j < length rb" "rb ! j = (f, pm)"
    by (auto simp: rb_def in_set_conv_nth)
  have s: "sorted_wrt (\<lambda>a b. fst a < fst b) rb"
    unfolding rb_def by (rule in_band_fftfreq_sorted [OF assms(1,2)])
  have "\<not> j < i" using c j(2) by auto
  then consider "j = i" | "i < j" by linarith
  then show ?thesis
  proof cases
    case 1
    with a j show ?thesis by simp
  next
    case 2
    with s j(1) have "fst (rb ! i) < fst (rb ! j)"
      by (simp add: sorted_wrt_iff_nth_less)
    with a j show ?thesis by simp
  qed
qed

lemma select_peak_cong:
  "min_signal_strength d' = min_signal_strength d \<Longrightarrow>
   select_peak d' freqs magnitude = select_peak d freqs magnitude"
proof -
  assume "min_signal_strength d' = min_signal_strength d"
  then have "significant_peaks d' = significant_peaks d"
    by (simp add: significant_peaks_def fun_eq_iff)
  then show ?thesis by (simp add: select_peak_def Let_def)
qed

lemma peak_stage_no_peak:
  "select_peak d freqs magnitude = None \<Longrightarrow>
   peak_stage fmt2 d freqs magnitude current_time fsk_time audio_level = d"
  by (simp add: peak_stage_def)

lemma pass_without_peak_downstream:
  assumes "\<And>audio_data. decode_audio f32 audio_bytes = Some audio_data \<Longrightarrow>
      select_peak d (fftfreq (min (length audio_data) 8192) (1 / sample_rate d))
        (spectrum (take (min (length audio_data) 8192) audio_data)) = None"
  shows "downstream (process_audio_chunk fmt2 f32 spectrum d audio_bytes current_time fsk_time) =
         downstream d"
proof (cases "decode_audio f32 audio_bytes")
  case None
  then show ?thesis by (simp add: process_audio_chunk_def downstream_def)
next
  case (Some audio_data)
  define w where "w = min (length audio_data) 8192"
  have np: "select_peak d' (fftfreq w (1 / sample_rate d)) (spectrum (take w audio_data)) = None"
    if "min_signal_strength d' = min_signal_strength d" for d'
    using assms [OF Some] select_peak_cong [OF that] by (simp add: w_def)
  show ?thesis
    unfolding process_audio_chunk_def Let_def Some option.case w_def [symmetric]
    by (simp add: downstream_def peak_stage_no_peak np)
qed


text \<open>
  Claim C4. A pass emits a peak exactly when some bin with a frequency in [20, 34] Hz
  has a magnitude of at least \<^verbatim>\<open>min_signal_strength\<close>. The peak is then an in-band bin
  at or above the threshold whose magnitude no in-band bin exceeds, and every in-band
  bin before it has a strictly smaller magnitude (the first of equal maxima); on the
  frequency axis the program uses (\<^verbatim>\<open>fftfreq\<close>) no in-band bin of the same magnitude has
  a lower frequency. When no peak is emitted the peak stage returns the object as it
  was, and the whole pass leaves the state behind the front end unchanged.
\<close>

theorem peak_selection:
  "(select_peak d freqs magnitude \<noteq> None \<longleftrightarrow>
      (\<exists>(f, m)\<in>set (zip freqs magnitude). 20 \<le> f \<and> f \<le> 34 \<and> min_signal_strength d \<le> m)) \<and>
   (select_peak d freqs magnitude = Some (pf, pm, i) \<longrightarrow>
      (let rb = in_band (zip freqs magnitude)
       in i < length rb \<and> rb ! i = (pf, pm) \<and> min_signal_strength d \<le> pm \<and>
          (\<forall>j<length rb. snd (rb ! j) \<le> pm) \<and> (\<forall>j<i. snd (rb ! j) < pm))) \<and>
   (0 < dd \<and> 0 < n \<and> select_peak d (fftfreq n dd) magnitude = Some (pf, pm, i) \<and>
    (f, pm) \<in> set (in_band (zip (fftfreq n dd) magnitude)) \<longrightarrow> pf \<le> f) \<and>
   (select_peak d freqs magnitude = None \<longrightarrow>
      peak_stage fmt2 d freqs magnitude current_time fsk_time audio_level = d) \<and>
   ((\<forall>audio_data. decode_audio f32 audio_bytes = Some audio_data \<longrightarrow>
        select_peak d (fftfreq (min (length audio_data) 8192) (1 / sample_rate d))
          (spectrum (take (min (length audio_data) 8192) audio_data)) = None) \<longrightarrow>
      downstream (process_audio_chunk fmt2 f32 spectrum d audio_bytes current_time fsk_time) =
      downstream d)"
proof -
  note 1 = select_peak_Some_iff [of d freqs magnitude]
  have 2: "select_peak d freqs magnitude = Some (pf, pm, i) \<longrightarrow>
      (let rb = in_band (zip freqs magnitude)
       in i < length rb \<and> rb ! i = (pf, pm) \<and> min_signal_strength d \<le> pm \<and>
          (\<forall>j<length rb. snd (rb ! j) \<le> pm) \<and> (\<forall>j<i. snd (rb ! j) < pm))"
    unfolding Let_def using select_peak_is_first_maximum [of d freqs magnitude pf pm i] by blast
  have 3: "0 < dd \<and> 0 < n \<and> select_peak d (fftfreq n dd) magnitude = Some (pf, pm, i) \<and>
      (f, pm) \<in> set (in_band (zip (fftfreq n dd) magnitude)) \<longrightarrow> pf \<le> f"
    using select_peak_lowest_frequency [of dd n d magnitude pf pm i f] by blast
  have 4: "select_peak d freqs magnitude = None \<longrightarrow>
      peak_stage fmt2 d freqs magnitude current_time fsk_time audio_level = d"
    by (simp add: peak_stage_no_peak)
  have 5: "(\<forall>audio_data. decode_audio f32 audio_bytes = Some audio_data \<longrightarrow>
        select_peak d (fftfreq (min (length audio_data) 8192) (1 / sample_rate d))
          (spectrum (take (min (length audio_data) 8192) audio_data)) = None) \<longrightarrow>
      downstream (process_audio_chunk fmt2 f32 spectrum d audio_bytes current_time fsk_time) =
      downstream d"
    using pass_without_peak_downstream [of f32 audio_bytes d spectrum fmt2 current_time fsk_time]
    by blast
  from 1 2 3 4 5 show ?thesis by (intro conjI)
qed

text \<open>
  Two in-band bins of magnitude 30, at 26.92 Hz and 32.30 Hz: the peak is the one at
  26.92 Hz. A spectrum with no in-band bin gives no peak.
\<close>

lemma select_peak_example:
  "select_peak init_decoder [0, 21.53, 26.92, 32.30, 40] [100, 20, 30, 30, 99] =
     Some (26.92, 30, 1) \<and>
   in_band (zip [0, 21.53, 26.92, 32.30, 40] [100, 20, 30, 30, 99]) =
     [(21.53, 20), (26.92, 30), (32.30, 30)]"
  by (simp add: select_peak_def in_band_def significant_peaks_def init_decoder_def sort_key_def
      Let_def)

lemma select_peak_fftfreq_example:
  "fftfreq 8 (1 / 64) = [0, 8, 16, 24, - 32, - 24, - 16, - 8] \<and>
   select_peak init_decoder (fftfreq 8 (1 / 64)) [0, 0, 0, 20, 0, 0, 0, 0] = Some (24, 20, 0) \<and>
   (24, 20) \<in> set (in_band (zip (fftfreq 8 (1 / 64)) [0, 0, 0, 20, 0, 0, 0, 0]))"
proof -
  have u: "[0..<4] = [0, 1, 2, Suc 2]" by (simp add: upt_rec)
  have f: "fftfreq 8 (1 / 64) = [0, 8, 16, 24, - 32, - 24, - 16, - 8]"
    by (simp add: fftfreq_def Let_def u)
  show ?thesis unfolding f
    by (simp add: select_peak_def in_band_def significant_peaks_def init_decoder_def sort_key_def
        Let_def)
qed

theorem peak_selection_witness:
  "select_peak init_decoder [0, 21.53, 26.92, 32.30, 40] [100, 20, 30, 30, 99] =
     Some (26.92, 30, 1) \<and>
   in_band (zip [0, 21.53, 26.92, 32.30, 40] [100, 20, 30, 30, 99]) ! 1 = (26.92, 30) \<and>
   snd (in_band (zip [0, 21.53, 26.92, 32.30, 40] [100, 20, 30, 30, 99]) ! 2) \<le> 30 \<and>
   snd (in_band (zip [0, 21.53, 26.92, 32.30, 40] [100, 20, 30, 30, 99]) ! 0) < 30 \<and>
   select_peak init_decoder (fftfreq 8 (1 / 64)) [0, 0, 0, 20, 0, 0, 0, 0] = Some (24, 20, 0) \<and>
   (24, 20) \<in> set (in_band (zip (fftfreq 8 (1 / 64)) [0, 0, 0, 20, 0, 0, 0, 0])) \<and>
   select_peak init_decoder [0, 50] [100, 100] = None \<and>
   peak_stage (\<lambda>x. []) init_decoder [0, 50] [100, 100] 5 5 1 = init_decoder \<and>
   downstream (process_audio_chunk (\<lambda>x. []) (\<lambda>w. 0) (\<lambda>xs. xs) init_decoder [] 5 5) =
     downstream init_decoder"
proof -
  have n: "select_peak init_decoder [0, 50] [100, 100] = None"
    by (simp add: select_peak_def in_band_def Let_def)
  have v: "\<forall>audio_data. decode_audio (\<lambda>w. 0) [] = Some audio_data \<longrightarrow>
      select_peak init_decoder (fftfreq (min (length audio_data) 8192) (1 / sample_rate init_decoder))
        ((\<lambda>xs. xs) (take (min (length audio_data) 8192) audio_data)) = None"
    by (simp add: decode_audio_int16_le)
  note e = select_peak_example select_peak_fftfreq_example
  from peak_selection [where d = init_decoder and freqs = "[0, 21.53, 26.92, 32.30, 40]"
      and magnitude = "[100, 20, 30, 30, 99]" and pf = "26.92" and pm = 30 and i = 1]
  have a: "in_band (zip [0, 21.53, 26.92, 32.30, 40] [100, 20, 30, 30, 99]) ! 1 = (26.92, 30) \<and>
      snd (in_band (zip [0, 21.53, 26.92, 32.30, 40] [100, 20, 30, 30, 99]) ! 2) \<le> 30 \<and>
      snd (in_band (zip [0, 21.53, 26.92, 32.30, 40] [100, 20, 30, 30, 99]) ! 0) < 30"
    using e(1) by (simp add: Let_def)
  from peak_selection [where d = init_decoder and freqs = "[0, 50]" and magnitude = "[100, 100]"
      and ?fmt2.0 = "\<lambda>x. []" and current_time = 5 and fsk_time = 5 and audio_level = 1
      and ?f32.0 = "\<lambda>w. 0" and audio_bytes = "[]" and spectrum = "\<lambda>xs. xs"] n v
  have b: "peak_stage (\<lambda>x. []) init_decoder [0, 50] [100, 100] 5 5 1 = init_decoder \<and>
      downstream (process_audio_chunk (\<lambda>x. []) (\<lambda>w. 0) (\<lambda>xs. xs) init_decoder [] 5 5) =
        downstream init_decoder"
    by blast
  from a b n e show ?thesis by blast
qed

subsection \<open>The pattern decoder\<close>

text \<open>
  Reading one slot of the report: a later \<^verbatim>\<open>try\<close> block writes its own slot only, so the
  slot of a method is decided by that method alone.
\<close>

lemma skip_slot:
  "K \<noteq> key \<Longrightarrow>
   (case X of Inl e \<Rightarrow> r(key \<mapsto> m) | Inr a \<Rightarrow> if P a then r(key \<mapsto> g a) else r) K = r K"
  by (cases X) auto

lemma skip_slot_always:
  "K \<noteq> key \<Longrightarrow> (case X of Inl e \<Rightarrow> r(key \<mapsto> m) | Inr a \<Rightarrow> r(key \<mapsto> g a)) K = r K"
  by (cases X) auto

lemma skip_slot_option:
  "K \<noteq> key \<Longrightarrow>
   (case X of Inl e \<Rightarrow> r(key \<mapsto> m) | Inr None \<Rightarrow> r | Inr (Some a) \<Rightarrow> r(key \<mapsto> g a)) K = r K"
  by (cases X) (auto split: option.splits)

lemma hit_slot:
  "r K = None \<Longrightarrow>
   (case X of Inl e \<Rightarrow> r(K \<mapsto> m) | Inr a \<Rightarrow> if P a then r(K \<mapsto> g a) else r) K =
   (case X of Inl e \<Rightarrow> Some m | Inr a \<Rightarrow> if P a then Some (g a) else None)"
  by (cases X) auto

lemma hit_slot_always:
  "(case X of Inl e \<Rightarrow> r(K \<mapsto> m) | Inr a \<Rightarrow> r(K \<mapsto> g a)) K =
   (case X of Inl e \<Rightarrow> Some m | Inr a \<Rightarrow> Some (g a))"
  by (cases X) auto

lemma hit_slot_option:
  "r K = None \<Longrightarrow>
   (case X of Inl e \<Rightarrow> r(K \<mapsto> m) | Inr None \<Rightarrow> r | Inr (Some a) \<Rightarrow> r(K \<mapsto> g a)) K =
   (case X of Inl e \<Rightarrow> Some m | Inr None \<Rightarrow> None | Inr (Some a) \<Rightarrow> Some (g a))"
  by (cases X) (auto split: option.splits)

lemmas slot_rules = skip_slot skip_slot_always skip_slot_option hit_slot hit_slot_always
  hit_slot_option

lemma slot_ascii_8bit:
  assumes "8 \<le> length bits"
  shows "decode_binary_sequence fmt_pct fmt2 bits ''ascii_8bit'' =
           (case ascii_8bit (bit_string_of bits) of
              Inl e \<Rightarrow> Some ''Decode failed''
            | Inr r \<Rightarrow> if r \<noteq> [] then Some (take 50 r) else None)"
  using assms
  by (simp add: decode_binary_sequence_def Let_def slot_rules)


lemma slot_nibbles_4bit:
  assumes "8 \<le> length bits"
  shows "decode_binary_sequence fmt_pct fmt2 bits ''nibbles_4bit'' =
           (case nibbles_4bit (bit_string_of bits) of
              Inl e \<Rightarrow> Some ''Decode failed''
            | Inr r \<Rightarrow> if r \<noteq> [] then Some (join '' '' (take 20 r)) else None)"
  using assms
  by (simp add: decode_binary_sequence_def Let_def slot_rules)

lemma slot_bytes_decimal:
  assumes "8 \<le> length bits"
  shows "decode_binary_sequence fmt_pct fmt2 bits ''bytes_decimal'' =
           (case bytes_decimal (bit_string_of bits) of
              Inl e \<Rightarrow> Some ''Decode failed''
            | Inr r \<Rightarrow> if r \<noteq> [] then Some (join '' '' (take 15 r)) else None)"
  using assms
  by (simp add: decode_binary_sequence_def Let_def slot_rules)

lemma slot_hex_bytes:
  assumes "8 \<le> length bits"
  shows "decode_binary_sequence fmt_pct fmt2 bits ''hex_bytes'' =
           (case hex_bytes (bit_string_of bits) of
              Inl e \<Rightarrow> Some ''Decode failed''
            | Inr r \<Rightarrow> if r \<noteq> [] then Some (take 60 r) else None)"
  using assms
  by (simp add: decode_binary_sequence_def Let_def slot_rules)

lemma slot_baudot_5bit:
  assumes "8 \<le> length bits"
  shows "decode_binary_sequence fmt_pct fmt2 bits ''baudot_5bit'' =
           (case baudot_5bit (bit_string_of bits) of
              Inl e \<Rightarrow> Some ''Decode failed''
            | Inr r \<Rightarrow> if r \<noteq> [] then Some (take 30 r) else None)"
  using assms
  by (simp add: decode_binary_sequence_def Let_def slot_rules)

lemma slot_bcd_decimal:
  assumes "8 \<le> length bits"
  shows "decode_binary_sequence fmt_pct fmt2 bits ''bcd_decimal'' =
           (case bcd_decimal (bit_string_of bits) of
              Inl e \<Rightarrow> Some ''Decode failed''
            | Inr r \<Rightarrow> if r \<noteq> [] then Some (take 40 r) else None)"
  using assms
  by (simp add: decode_binary_sequence_def Let_def slot_rules)

lemma slot_sync_patterns:
  assumes "8 \<le> length bits"
  shows "decode_binary_sequence fmt_pct fmt2 bits ''sync_patterns'' =
           (case sync_patterns (bit_string_of bits) of
              Inl e \<Rightarrow> Some ''Analysis failed''
            | Inr r \<Rightarrow> Some r)"
  using assms
  by (simp add: decode_binary_sequence_def Let_def slot_rules)

lemma slot_statistics:
  assumes "8 \<le> length bits"
  shows "decode_binary_sequence fmt_pct fmt2 bits ''statistics'' =
           (case statistics fmt_pct fmt2 (bit_string_of bits) of
              Inl e \<Rightarrow> Some ''Calc failed''
            | Inr r \<Rightarrow> r)"
  using assms
  by (simp add: decode_binary_sequence_def Let_def slot_rules split: sum.splits option.splits)

text \<open>The bit string \<^verbatim>\<open>01000001\<close> under the four byte and nibble methods.\<close>

lemma e_bits: "bit_string_of [0, 1, 0, 0, 0, 0, 0, 1] = ''01000001''"
  by code_simp
lemma e_ascii: "ascii_8bit ''01000001'' = Inr ''A''"
  by code_simp
lemma e_hex: "hex_bytes ''01000001'' = Inr ''41 ''"
  by code_simp
lemma e_dec: "bytes_decimal ''01000001'' = Inr [''65'']"
  by code_simp
lemma e_nib: "nibbles_4bit ''01000001'' = Inr [''4'', ''1'']"
  by code_simp

text \<open>
  Claim C8. For the bits 0,1,0,0,0,0,0,1 the report holds \<^verbatim>\<open>A\<close> in the ASCII slot,
  \<^verbatim>\<open>41\<close> followed by a space in the hex slot, \<^verbatim>\<open>65\<close> in the decimal-bytes slot and
  \<^verbatim>\<open>4 1\<close> in the nibbles slot.
\<close>

theorem pattern_decoder_example:
  "decode_binary_sequence fmt_pct fmt2 [0, 1, 0, 0, 0, 0, 0, 1] ''ascii_8bit'' = Some ''A'' \<and>
   decode_binary_sequence fmt_pct fmt2 [0, 1, 0, 0, 0, 0, 0, 1] ''hex_bytes'' = Some ''41 '' \<and>
   decode_binary_sequence fmt_pct fmt2 [0, 1, 0, 0, 0, 0, 0, 1] ''bytes_decimal'' = Some ''65'' \<and>
   decode_binary_sequence fmt_pct fmt2 [0, 1, 0, 0, 0, 0, 0, 1] ''nibbles_4bit'' = Some ''4 1''"
proof -
  have l: "8 \<le> length [0, 1, 0, 0, 0, 0, 0, 1 :: int]" by simp
  show ?thesis
    by (simp add: slot_ascii_8bit [OF l] slot_hex_bytes [OF l] slot_bytes_decimal [OF l]
        slot_nibbles_4bit [OF l] e_bits e_ascii e_hex e_dec e_nib)
qed


text \<open>
  Claim C7. With fewer than 8 bits \<^verbatim>\<open>analyze_patterns\<close> returns the insufficient-data
  text and \<^verbatim>\<open>decode_binary_sequence\<close> a dict with the single slot \<^verbatim>\<open>error\<close>: no
  method has written a slot. With at least 8 bits a report is returned, for bits of any
  integer value, and each of its eight slots is decided by its own method alone: the
  failure marker when that method raises, its text otherwise.
\<close>

theorem codec_failures_isolated:
  "(length bits < 8 \<longrightarrow>
      analyze_patterns fmt_pct fmt2 bits = Text ''Insufficient data'' \<and>
      decode_binary_sequence fmt_pct fmt2 bits = [''error'' \<mapsto> ''Need at least 8 bits for decoding'']) \<and>
   (8 \<le> length bits \<longrightarrow>
      analyze_patterns fmt_pct fmt2 bits =
        Report (if repeating_patterns (bit_string_of bits) \<noteq> []
                then take 5 (repeating_patterns (bit_string_of bits)) else [''No clear patterns''])
          (decode_binary_sequence fmt_pct fmt2 bits) \<and>
      decode_binary_sequence fmt_pct fmt2 bits ''ascii_8bit'' =
        (case ascii_8bit (bit_string_of bits) of
           Inl e \<Rightarrow> Some ''Decode failed''
         | Inr r \<Rightarrow> if r \<noteq> [] then Some (take 50 r) else None) \<and>
      decode_binary_sequence fmt_pct fmt2 bits ''nibbles_4bit'' =
        (case nibbles_4bit (bit_string_of bits) of
           Inl e \<Rightarrow> Some ''Decode failed''
         | Inr r \<Rightarrow> if r \<noteq> [] then Some (join '' '' (take 20 r)) else None) \<and>
      decode_binary_sequence fmt_pct fmt2 bits ''bytes_decimal'' =
        (case bytes_decimal (bit_string_of bits) of
           Inl e \<Rightarrow> Some ''Decode failed''
         | Inr r \<Rightarrow> if r \<noteq> [] then Some (join '' '' (take 15 r)) else None) \<and>
      decode_binary_sequence fmt_pct fmt2 bits ''hex_bytes'' =
        (case hex_bytes (bit_string_of bits) of
           Inl e \<Rightarrow> Some ''Decode failed''
         | Inr r \<Rightarrow> if r \<noteq> [] then Some (take 60 r) else None) \<and>
      decode_binary_sequence fmt_pct fmt2 bits ''baudot_5bit'' =
        (case baudot_5bit (bit_string_of bits) of
           Inl e \<Rightarrow> Some ''Decode failed''
         | Inr r \<Rightarrow> if r \<noteq> [] then Some (take 30 r) else None) \<and>
      decode_binary_sequence fmt_pct fmt2 bits ''bcd_decimal'' =
        (case bcd_decimal (bit_string_of bits) of
           Inl e \<Rightarrow> Some ''Decode failed''
         | Inr r \<Rightarrow> if r \<noteq> [] then Some (take 40 r) else None) \<and>
      decode_binary_sequence fmt_pct fmt2 bits ''sync_patterns'' =
        (case sync_patterns (bit_string_of bits) of
           Inl e \<Rightarrow> Some ''Analysis failed''
         | Inr r \<Rightarrow> Some r) \<and>
      decode_binary_sequence fmt_pct fmt2 bits ''statistics'' =
        (case statistics fmt_pct fmt2 (bit_string_of bits) of
           Inl e \<Rightarrow> Some ''Calc failed''
         | Inr r \<Rightarrow> r))"
proof -
  have short: "analyze_patterns fmt_pct fmt2 bits = Text ''Insufficient data'' \<and>
      decode_binary_sequence fmt_pct fmt2 bits = [''error'' \<mapsto> ''Need at least 8 bits for decoding'']"
    if "length bits < 8"
    using that by (simp add: analyze_patterns_def decode_binary_sequence_def)
  have report: "analyze_patterns fmt_pct fmt2 bits =
        Report (if repeating_patterns (bit_string_of bits) \<noteq> []
                then take 5 (repeating_patterns (bit_string_of bits)) else [''No clear patterns''])
          (decode_binary_sequence fmt_pct fmt2 bits)"
    if "8 \<le> length bits"
    using that by (simp add: analyze_patterns_def Let_def)
  show ?thesis
    using short report slot_ascii_8bit [of bits fmt_pct fmt2] slot_nibbles_4bit [of bits fmt_pct fmt2]
      slot_bytes_decimal [of bits fmt_pct fmt2] slot_hex_bytes [of bits fmt_pct fmt2]
      slot_baudot_5bit [of bits fmt_pct fmt2] slot_bcd_decimal [of bits fmt_pct fmt2]
      slot_sync_patterns [of bits fmt_pct fmt2] slot_statistics [of bits fmt_pct fmt2]
    by blast
qed

text \<open>
  Twelve bits whose ninth is 2: the nibble and BCD methods raise on \<^verbatim>\<open>2000\<close> and get
  their markers; the byte methods read only the first eight bits and are unaffected.
\<close>

lemma f_bits: "bit_string_of [0, 1, 0, 0, 0, 0, 0, 1, 2, 0, 0, 0] = ''010000012000''"
  by code_simp
lemma f_ascii: "ascii_8bit ''010000012000'' = Inr ''A''"
  by code_simp
lemma f_nib: "nibbles_4bit ''010000012000'' =
  Inl (ValueError (''invalid literal for int() with base 2: '' @ repr_str ''2000''))"
  by code_simp
lemma f_dec: "bytes_decimal ''010000012000'' = Inr [''65'']"
  by code_simp
lemma f_hex: "hex_bytes ''010000012000'' = Inr ''41 ''"
  by code_simp
lemma f_baudot: "baudot_5bit ''010000012000'' = Inr ''??''"
  by code_simp
lemma f_bcd: "bcd_decimal ''010000012000'' =
  Inl (ValueError (''invalid literal for int() with base 2: '' @ repr_str ''2000''))"
  by code_simp
lemma f_sync: "sync_patterns ''010000012000'' = Inr ''None detected''"
  by code_simp

theorem codec_failures_isolated_witness:
  "length [0, 1, 0 :: int] < 8 \<and>
   analyze_patterns (\<lambda>x. []) (\<lambda>x. []) [0, 1, 0] = Text ''Insufficient data'' \<and>
   decode_binary_sequence (\<lambda>x. []) (\<lambda>x. []) [0, 1, 0] =
     [''error'' \<mapsto> ''Need at least 8 bits for decoding''] \<and>
   8 \<le> length [0, 1, 0, 0, 0, 0, 0, 1, 2, 0, 0, 0 :: int] \<and>
   decode_binary_sequence (\<lambda>x. []) (\<lambda>x. []) [0, 1, 0, 0, 0, 0, 0, 1, 2, 0, 0, 0] ''ascii_8bit'' =
     Some ''A'' \<and>
   decode_binary_sequence (\<lambda>x. []) (\<lambda>x. []) [0, 1, 0, 0, 0, 0, 0, 1, 2, 0, 0, 0] ''nibbles_4bit'' =
     Some ''Decode failed'' \<and>
   decode_binary_sequence (\<lambda>x. []) (\<lambda>x. []) [0, 1, 0, 0, 0, 0, 0, 1, 2, 0, 0, 0] ''bytes_decimal'' =
     Some ''65'' \<and>
   decode_binary_sequence (\<lambda>x. []) (\<lambda>x. []) [0, 1, 0, 0, 0, 0, 0, 1, 2, 0, 0, 0] ''hex_bytes'' =
     Some ''41 '' \<and>
   decode_binary_sequence (\<lambda>x. []) (\<lambda>x. []) [0, 1, 0, 0, 0, 0, 0, 1, 2, 0, 0, 0] ''baudot_5bit'' =
     Some ''??'' \<and>
   decode_binary_sequence (\<lambda>x. []) (\<lambda>x. []) [0, 1, 0, 0, 0, 0, 0, 1, 2, 0, 0, 0] ''bcd_decimal'' =
     Some ''Decode failed'' \<and>
   decode_binary_sequence (\<lambda>x. []) (\<lambda>x. []) [0, 1, 0, 0, 0, 0, 0, 1, 2, 0, 0, 0] ''sync_patterns'' =
     Some ''None detected''"
proof -
  have s: "length [0, 1, 0 :: int] < 8" by simp
  have l: "8 \<le> length [0, 1, 0, 0, 0, 0, 0, 1, 2, 0, 0, 0 :: int]" by simp
  from codec_failures_isolated [of "[0, 1, 0]" "\<lambda>x. []" "\<lambda>x. []"] s
  have a: "analyze_patterns (\<lambda>x. []) (\<lambda>x. []) [0, 1, 0] = Text ''Insufficient data'' \<and>
      decode_binary_sequence (\<lambda>x. []) (\<lambda>x. []) [0, 1, 0] =
        [''error'' \<mapsto> ''Need at least 8 bits for decoding'']"
    by blast
  from codec_failures_isolated [of "[0, 1, 0, 0, 0, 0, 0, 1, 2, 0, 0, 0]" "\<lambda>x. []" "\<lambda>x. []"] l
  have b: "decode_binary_sequence (\<lambda>x. []) (\<lambda>x. []) [0, 1, 0, 0, 0, 0, 0, 1, 2, 0, 0, 0] ''ascii_8bit'' =
        Some ''A'' \<and>
      decode_binary_sequence (\<lambda>x. []) (\<lambda>x. []) [0, 1, 0, 0, 0, 0, 0, 1, 2, 0, 0, 0] ''nibbles_4bit'' =
        Some ''Decode failed'' \<and>
      decode_binary_sequence (\<lambda>x. []) (\<lambda>x. []) [0, 1, 0, 0, 0, 0, 0, 1, 2, 0, 0, 0] ''bytes_decimal'' =
        Some ''65'' \<and>
      decode_binary_sequence (\<lambda>x. []) (\<lambda>x. []) [0, 1, 0, 0, 0, 0, 0, 1, 2, 0, 0, 0] ''hex_bytes'' =
        Some ''41 '' \<and>
      decode_binary_sequence (\<lambda>x. []) (\<lambda>x. []) [0, 1, 0, 0, 0, 0, 0, 1, 2, 0, 0, 0] ''baudot_5bit'' =
        Some ''??'' \<and>
      decode_binary_sequence (\<lambda>x. []) (\<lambda>x. []) [0, 1, 0, 0, 0, 0, 0, 1, 2, 0, 0, 0] ''bcd_decimal'' =
        Some ''Decode failed'' \<and>
      decode_binary_sequence (\<lambda>x. []) (\<lambda>x. []) [0, 1, 0, 0, 0, 0, 0, 1, 2, 0, 0, 0] ''sync_patterns'' =
        Some ''None detected''"
    by (simp add: f_bits f_ascii f_nib f_dec f_hex f_baudot f_bcd f_sync)
  from s l a b show ?thesis by blast
qed

subsection \<open>The Monolit heuristic\<close>

text \<open>
  On a list of bits 0 and 1 the bit string holds binary digits only, so no byte fails to
  parse and both renderings are produced.
\<close>

lemma str_int_bit:
  "b = 0 \<or> b = 1 \<Longrightarrow> str_int b = [if b = 1 then CHR ''1'' else CHR ''0'']"
  by (auto simp: str_int_def str_nat.simps [of 0] str_nat.simps [of "Suc 0"] digit_char_def)

lemma bit_string_of_bits:
  assumes "set bits \<subseteq> {0, 1}"
  shows "list_all is_bin_digit (bit_string_of bits) \<and> length (bit_string_of bits) = length bits"
  using assms
proof (induction bits)
  case Nil
  then show ?case by (simp add: bit_string_of_def)
next
  case (Cons b bits)
  then have "b = 0 \<or> b = 1" by simp
  from str_int_bit [OF this] Cons show ?case
    by (simp add: bit_string_of_def is_bin_digit_def)
qed

lemma int_base2_bin:
  assumes "s \<noteq> []" and "list_all is_bin_digit s"
  shows "int_base2 s = Inr (bin_value s)"
proof -
  obtain c r where s: "s = c # r" using assms(1) by (cases s) auto
  with assms(2) have "c \<noteq> CHR ''-''" by (auto simp: is_bin_digit_def)
  with s assms(2) show ?thesis by (simp add: int_base2_def)
qed

lemma slice_bin:
  "list_all is_bin_digit s \<Longrightarrow> list_all is_bin_digit (slice s i n)"
  by (auto simp: slice_def list_all_iff dest!: in_set_takeD in_set_dropD)

lemma monolit_score_sum:
  "monolit_score cs g5 g8 cw =
     (if cs \<noteq> [] then 30 else 0) + (if g5 \<noteq> [] then 25 else 0) +
     (if g8 \<noteq> [] then 25 else 0) + (if cw \<noteq> [] then 20 else 0)"
  by (simp add: monolit_score_def Let_def)

lemma likelihood_bands:
  "(likelihood_of score = ''HIGH - Strong Monolit characteristics'' \<longleftrightarrow> 70 \<le> score) \<and>
   (likelihood_of score = ''MEDIUM - Some Monolit patterns'' \<longleftrightarrow> 40 \<le> score \<and> score < 70) \<and>
   (likelihood_of score = ''LOW - Few Monolit indicators'' \<longleftrightarrow> 20 \<le> score \<and> score < 40) \<and>
   (likelihood_of score = ''NONE - No clear Monolit patterns'' \<longleftrightarrow> score < 20)"
  by (simp add: likelihood_of_def)

lemma monolit_likelihood_slot:
  assumes "64 \<le> length bits"
    and "ascii_chars_of (bit_string_of bits) = Inr ascii_chars"
    and "decimal_sequence_of (bit_string_of bits) = Inr decimal_sequence"
  shows "detect_monolit_coding fmt2 d bits ''monolit_likelihood'' =
           Some (Str (likelihood_of (monolit_score (callsign_patterns_of ascii_chars)
              (findall_digits 5 decimal_sequence) (findall_digits 8 decimal_sequence)
              (findall_code_words (upper ascii_chars))))) \<and>
         detect_monolit_coding fmt2 d bits ''error'' = None"
  using assms by (simp add: detect_monolit_coding_def Let_def)

text \<open>
  What the three searches find, in terms of the string searched. The scan of
  \<^verbatim>\<open>re.findall\<close> returns a match exactly when the pattern matches at some position.
\<close>

lemma findall_scan_nonempty:
  "findall_scan m prev_word 0 s \<noteq> [] \<longleftrightarrow>
     (\<exists>i<length s. m (if i = 0 then prev_word else is_word (s ! (i - 1))) (drop i s) \<noteq> None)"
proof (induction s arbitrary: prev_word)
  case Nil
  then show ?case by simp
next
  case (Cons c cs)
  show ?case
  proof (cases "m prev_word (c # cs)")
    case (Some w)
    then have "findall_scan m prev_word 0 (c # cs) \<noteq> []" by simp
    moreover have "\<exists>i<length (c # cs).
        m (if i = 0 then prev_word else is_word ((c # cs) ! (i - 1))) (drop i (c # cs)) \<noteq> None"
      using Some by (intro exI [of _ 0]) simp
    ultimately show ?thesis by blast
  next
    case None
    have "findall_scan m prev_word 0 (c # cs) \<noteq> [] \<longleftrightarrow> findall_scan m (is_word c) 0 cs \<noteq> []"
      using None by simp
    also have "\<dots> \<longleftrightarrow>
        (\<exists>i<length cs. m (if i = 0 then is_word c else is_word (cs ! (i - 1))) (drop i cs) \<noteq> None)"
      by (rule Cons.IH)
    also have "\<dots> \<longleftrightarrow> (\<exists>j<length (c # cs).
        m (if j = 0 then prev_word else is_word ((c # cs) ! (j - 1))) (drop j (c # cs)) \<noteq> None)"
      (is "?L \<longleftrightarrow> ?R")
    proof
      assume ?L
      then obtain i where i: "i < length cs"
        "m (if i = 0 then is_word c else is_word (cs ! (i - 1))) (drop i cs) \<noteq> None" by blast
      have "(if i = 0 then is_word c else is_word (cs ! (i - 1))) = is_word ((c # cs) ! i)"
        by (cases i) simp_all
      with i show ?R by (intro exI [of _ "Suc i"]) simp
    next
      assume ?R
      then obtain j where j: "j < length (c # cs)"
        "m (if j = 0 then prev_word else is_word ((c # cs) ! (j - 1))) (drop j (c # cs)) \<noteq> None"
        by blast
      with None obtain i where ji: "j = Suc i" by (cases j) auto
      have "(if i = 0 then is_word c else is_word (cs ! (i - 1))) = is_word ((c # cs) ! i)"
        by (cases i) simp_all
      with j ji show ?L by (intro exI [of _ i]) simp
    qed
    finally show ?thesis .
  qed
qed

text \<open>
  A pattern \<^verbatim>\<open>\b\<close>, \<open>n\<close> characters of a class of word characters, \<^verbatim>\<open>\b\<close> matches at a
  position exactly when a run of \<open>n\<close> such characters starts there with no word character
  on either side.
\<close>

lemma starts_word_drop:
  "starts_word (drop k s) \<longleftrightarrow> k < length s \<and> is_word (s ! k)"
proof (cases "k < length s")
  case True
  then have "drop k s = s ! k # drop (Suc k) s" by (simp add: Cons_nth_drop_Suc)
  with True show ?thesis by (simp add: starts_word_def)
next
  case False
  then show ?thesis by (simp add: starts_word_def)
qed

lemma match_run_iff:
  assumes "0 < n" and "\<And>c. P c \<Longrightarrow> is_word c" and "i < length s"
  shows "(at_boundary (if i = 0 then False else is_word (s ! (i - 1))) (drop i s) \<and>
          length (take n (drop i s)) = n \<and> list_all P (take n (drop i s)) \<and>
          at_boundary True (drop n (drop i s))) \<longleftrightarrow> bounded_run P is_word n s i"
proof (cases "i + n \<le> length s \<and> list_all P (take n (drop i s))")
  case True
  then have ne: "take n (drop i s) \<noteq> []" using assms(1,3) by auto
  have "\<forall>x\<in>set (take n (drop i s)). P x" using True unfolding list_all_iff by blast
  with hd_in_set [OF ne] have "P (hd (take n (drop i s)))" by blast
  moreover have "hd (take n (drop i s)) = s ! i"
    using assms(1,3) by (simp add: hd_drop_conv_nth)
  ultimately have "is_word (s ! i)" using assms(2) by simp
  then have sw: "starts_word (drop i s)" using assms(3) by (simp add: starts_word_drop)
  have len: "length (take n (drop i s)) = n" using True by (auto simp: min_def)
  have after: "at_boundary True (drop n (drop i s)) \<longleftrightarrow> i + n = length s \<or> \<not> is_word (s ! (i + n))"
    using True by (auto simp: at_boundary_def starts_word_drop add.commute)
  show ?thesis
    using True sw len after by (auto simp: at_boundary_def bounded_run_def)
next
  case False
  then show ?thesis using assms(1,3) by (auto simp: bounded_run_def min_def)
qed



lemma is_digit_word: "is_digit c \<Longrightarrow> is_word c"
  by (simp add: is_word_def is_alnum_def)

lemma is_upper_word: "is_upper c \<Longrightarrow> is_word c"
  by (simp add: is_word_def is_alnum_def)

lemma match_digits_iff:
  assumes "0 < n" and "i < length s"
  shows "match_digits n (if i = 0 then False else is_word (s ! (i - 1))) (drop i s) \<noteq> None \<longleftrightarrow>
         bounded_run is_digit is_word n s i"
  using match_run_iff [of n is_digit i s, OF assms(1) is_digit_word assms(2)]
  by (simp add: match_digits_def Let_def)

lemma match_letters_iff:
  assumes "0 < n" and "i < length s"
  shows "match_letters n (if i = 0 then False else is_word (s ! (i - 1))) (drop i s) \<noteq> None \<longleftrightarrow>
         bounded_run is_upper is_word n s i"
  using match_run_iff [of n is_upper i s, OF assms(1) is_upper_word assms(2)]
  by (simp add: match_letters_def Let_def)

lemma ex_less_cong:
  "(\<And>i. i < n \<Longrightarrow> P i \<longleftrightarrow> Q i) \<Longrightarrow> (\<exists>i<n. P i) \<longleftrightarrow> (\<exists>i<(n::nat). Q i)"
  by blast

lemma concat_map_nonempty:
  "concat (map f xs) \<noteq> [] \<longleftrightarrow> (\<exists>x\<in>set xs. f x \<noteq> [])"
  by (induction xs) simp_all

lemma list_ex_upt: "list_ex P [0..<n] \<longleftrightarrow> (\<exists>i<n. P i)"
  unfolding list_ex_iff by (simp add: Bex_def)

lemma findall_digits_nonempty:
  assumes "0 < n"
  shows "findall_digits n s \<noteq> [] \<longleftrightarrow> (\<exists>i<length s. bounded_run is_digit is_word n s i)"
proof -
  have "findall_digits n s \<noteq> [] \<longleftrightarrow>
      (\<exists>i<length s. match_digits n (if i = 0 then False else is_word (s ! (i - 1))) (drop i s) \<noteq> None)"
    by (simp only: findall_digits_def findall_scan_nonempty)
  also have "\<dots> \<longleftrightarrow> (\<exists>i<length s. bounded_run is_digit is_word n s i)"
    by (rule ex_less_cong) (rule match_digits_iff [OF assms])
  finally show ?thesis .
qed

lemma match_code_word_iff:
  "match_code_word pw t \<noteq> None \<longleftrightarrow>
     match_letters 4 pw t \<noteq> None \<or> match_letters 5 pw t \<noteq> None \<or> match_letters 6 pw t \<noteq> None"
  by (cases "match_letters 6 pw t"; cases "match_letters 5 pw t")
    (simp_all add: match_code_word_def)

lemma findall_code_words_nonempty:
  "findall_code_words s \<noteq> [] \<longleftrightarrow>
     (\<exists>i<length s. bounded_run is_upper is_word 4 s i \<or> bounded_run is_upper is_word 5 s i \<or>
         bounded_run is_upper is_word 6 s i)"
proof -
  have "findall_code_words s \<noteq> [] \<longleftrightarrow>
      (\<exists>i<length s.
         match_letters 4 (if i = 0 then False else is_word (s ! (i - 1))) (drop i s) \<noteq> None \<or>
         match_letters 5 (if i = 0 then False else is_word (s ! (i - 1))) (drop i s) \<noteq> None \<or>
         match_letters 6 (if i = 0 then False else is_word (s ! (i - 1))) (drop i s) \<noteq> None)"
    by (simp only: findall_code_words_def findall_scan_nonempty match_code_word_iff)
  also have "\<dots> \<longleftrightarrow>
      (\<exists>i<length s. bounded_run is_upper is_word 4 s i \<or> bounded_run is_upper is_word 5 s i \<or>
         bounded_run is_upper is_word 6 s i)"
  proof (rule ex_less_cong)
    fix i assume i: "i < length s"
    have p: "0 < (4::nat)" "0 < (5::nat)" "0 < (6::nat)" by simp_all
    show "match_letters 4 (if i = 0 then False else is_word (s ! (i - 1))) (drop i s) \<noteq> None \<or>
         match_letters 5 (if i = 0 then False else is_word (s ! (i - 1))) (drop i s) \<noteq> None \<or>
         match_letters 6 (if i = 0 then False else is_word (s ! (i - 1))) (drop i s) \<noteq> None \<longleftrightarrow>
         bounded_run is_upper is_word 4 s i \<or> bounded_run is_upper is_word 5 s i \<or>
         bounded_run is_upper is_word 6 s i"
      by (simp only: match_letters_iff [OF p(1) i] match_letters_iff [OF p(2) i]
          match_letters_iff [OF p(3) i])
  qed
  finally show ?thesis .
qed

text \<open>
  The call-sign search finds a repetition exactly when one starts at a position \<open>i\<close> with
  \<open>i + 2 * len < length s\<close>: the positions run over \<^verbatim>\<open>range(len(ascii_chars) - length * 2)\<close>,
  which leaves out a repetition that ends with the string.
\<close>

lemma callsign_patterns_nonempty:
  "callsign_patterns_of s \<noteq> [] \<longleftrightarrow> spec_call_sign_before_end s"
proof -
  have r: "i \<in> set (range_upto (int (length s) - int len * 2)) \<longleftrightarrow> i + 2 * len < length s"
    for i len
    by (auto simp: range_upto_def)
  have c: "slice s i len = slice s (i + len) len \<and> isalnum (slice s i len) \<longleftrightarrow> repeated_at s len i"
    if "0 < len" "i + 2 * len < length s" for i len
    using that by (auto simp: slice_def repeated_at_def isalnum_def)
  have inner: "(\<exists>i\<in>set (range_upto (int (length s) - int len * 2)).
        slice s i len = slice s (i + len) len \<and> isalnum (slice s i len)) \<longleftrightarrow>
      (\<exists>i<length s. i + 2 * len < length s \<and> repeated_at s len i)" if "0 < len" for len
  proof
    assume "\<exists>i\<in>set (range_upto (int (length s) - int len * 2)).
        slice s i len = slice s (i + len) len \<and> isalnum (slice s i len)"
    then obtain i where i: "i + 2 * len < length s"
      "slice s i len = slice s (i + len) len \<and> isalnum (slice s i len)"
      using r by blast
    have "repeated_at s len i" using c [OF that i(1)] i(2) by blast
    moreover have "i < length s" using i(1) by simp
    ultimately show "\<exists>i<length s. i + 2 * len < length s \<and> repeated_at s len i"
      using i(1) by blast
  next
    assume "\<exists>i<length s. i + 2 * len < length s \<and> repeated_at s len i"
    then obtain i where i: "i + 2 * len < length s" "repeated_at s len i" by blast
    with c [OF that i(1)] r [of i len]
    show "\<exists>i\<in>set (range_upto (int (length s) - int len * 2)).
        slice s i len = slice s (i + len) len \<and> isalnum (slice s i len)"
      by blast
  qed
  have one: "concat (map (\<lambda>i.
           (let pattern = slice s i len;
                next_pattern = slice s (i + len) len
            in if pattern = next_pattern \<and> isalnum pattern
               then [CHR 0x27 # pattern @ CHR 0x27 # '' (repeated)''] else []))
         (range_upto (int (length s) - int len * 2))) \<noteq> [] \<longleftrightarrow>
      (\<exists>i<length s. i + 2 * len < length s \<and> repeated_at s len i)" if "0 < len" for len
  proof -
    have "concat (map (\<lambda>i.
           (let pattern = slice s i len;
                next_pattern = slice s (i + len) len
            in if pattern = next_pattern \<and> isalnum pattern
               then [CHR 0x27 # pattern @ CHR 0x27 # '' (repeated)''] else []))
         (range_upto (int (length s) - int len * 2))) \<noteq> [] \<longleftrightarrow>
        (\<exists>i\<in>set (range_upto (int (length s) - int len * 2)).
        slice s i len = slice s (i + len) len \<and> isalnum (slice s i len))"
      unfolding concat_map_nonempty Let_def by auto
    with inner [OF that] show ?thesis by simp
  qed
  define f where "f = (\<lambda>len. concat (map (\<lambda>i.
           (let pattern = slice s i len;
                next_pattern = slice s (i + len) len
            in if pattern = next_pattern \<and> isalnum pattern
               then [CHR 0x27 # pattern @ CHR 0x27 # '' (repeated)''] else []))
         (range_upto (int (length s) - int len * 2))))"
  have g: "f len \<noteq> [] \<longleftrightarrow> (\<exists>i<length s. i + 2 * len < length s \<and> repeated_at s len i)"
    if "0 < len" for len
    unfolding f_def by (rule one [OF that])
  have "callsign_patterns_of s = concat (map f [3, 4, 5])"
    unfolding callsign_patterns_of_def f_def by (rule refl)
  then have "callsign_patterns_of s \<noteq> [] \<longleftrightarrow> f 3 \<noteq> [] \<or> f 4 \<noteq> [] \<or> f 5 \<noteq> []"
    by simp
  also have "\<dots> \<longleftrightarrow> spec_call_sign_before_end s"
    unfolding spec_call_sign_before_end_def list_ex_Cons_iff list_ex_Nil_iff list_ex_upt
    by (simp add: g)
  finally show ?thesis .
qed

lemma spec_call_sign_before_end_imp:
  "spec_call_sign_before_end s \<Longrightarrow> spec_call_sign s"
  unfolding spec_call_sign_before_end_def spec_call_sign_def list_ex_upt list_ex_Nil_iff list_ex_Cons_iff
  by blast

text \<open>A run in a string mapped character by character.\<close>

lemma bounded_run_map:
  assumes "\<And>c. P (g c) \<longleftrightarrow> P' c" and "\<And>c. W (g c) \<longleftrightarrow> W' c"
  shows "bounded_run P W n (map g s) i \<longleftrightarrow> bounded_run P' W' n s i"
proof (cases "i + n \<le> length s")
  case True
  have 1: "list_all P (take n (drop i (map g s))) \<longleftrightarrow> list_all P' (take n (drop i s))"
    by (simp add: drop_map take_map list_all_iff assms(1))
  have 2: "W (map g s ! (i - 1)) \<longleftrightarrow> W' (s ! (i - 1))" if "i \<noteq> 0"
    using that True by (simp add: assms(2))
  have 3: "W (map g s ! (i + n)) \<longleftrightarrow> W' (s ! (i + n))" if "i + n \<noteq> length s"
    using that True by (simp add: assms(2))
  show ?thesis
    unfolding bounded_run_def using 1 2 3 by auto
next
  case False
  then show ?thesis by (simp add: bounded_run_def)
qed

lemma not_digit_space: "\<not> is_digit CHR '' ''" "\<not> is_word CHR '' ''"
  by (simp_all add: is_digit_def is_word_def is_alnum_def is_upper_def is_lower_def)

lemma digit_group_rendering:
  "(\<exists>i<length (digits_only a). bounded_run is_digit is_word n (digits_only a) i) \<longleftrightarrow>
     spec_digit_group n a"
proof -
  have "bounded_run is_digit is_word n (digits_only a) i \<longleftrightarrow> bounded_run is_digit is_digit n a i"
    for i
    unfolding digits_only_def
    by (rule bounded_run_map) (auto simp: not_digit_space is_digit_word)
  then show ?thesis
    by (simp add: spec_digit_group_def list_ex_upt digits_only_def)
qed

lemma of_char_char_of_nat:
  "n < 256 \<Longrightarrow> (of_char (char_of (n::nat)) :: nat) = n"
  by simp

lemma upper_char:
  "is_upper (if is_lower c then char_of ((of_char c :: nat) - 32) else c) \<longleftrightarrow> is_letter c"
  "is_word (if is_lower c then char_of ((of_char c :: nat) - 32) else c) \<longleftrightarrow> is_word c"
proof -
  have l: "is_upper (char_of ((of_char c :: nat) - 32))" if "is_lower c"
  proof -
    define m where "m = (of_char c :: nat) - 32"
    from that have "65 \<le> m \<and> m \<le> 90"
      unfolding m_def is_lower_def by arith
    moreover from this have "(of_char (char_of m) :: nat) = m"
      by (intro of_char_char_of_nat) simp
    ultimately have "is_upper (char_of m)"
      unfolding is_upper_def by simp
    then show ?thesis unfolding m_def .
  qed
  show "is_upper (if is_lower c then char_of ((of_char c :: nat) - 32) else c) \<longleftrightarrow> is_letter c"
    using l by (simp add: is_letter_def)
  show "is_word (if is_lower c then char_of ((of_char c :: nat) - 32) else c) \<longleftrightarrow> is_word c"
    using l by (auto simp: is_word_def is_alnum_def)
qed

lemma code_word_rendering:
  "(\<exists>i<length (upper a). bounded_run is_upper is_word 4 (upper a) i \<or>
       bounded_run is_upper is_word 5 (upper a) i \<or> bounded_run is_upper is_word 6 (upper a) i) \<longleftrightarrow>
     spec_letter_word a"
proof -
  have "bounded_run is_upper is_word n (upper a) i \<longleftrightarrow> bounded_run is_letter is_word n a i"
    for i n
    unfolding upper_def by (rule bounded_run_map) (rule upper_char)+
  then show ?thesis
    unfolding spec_letter_word_def list_ex_Cons_iff list_ex_Nil_iff list_ex_upt
    by (simp add: upper_def) blast
qed

text \<open>
  On a list of bits 0 and 1 the two loops of the heuristic produce the ASCII rendering
  and the digit-only rendering of the specification.
\<close>

lemma for_loop_append_map:
  assumes "\<And>i acc. i \<in> set xs \<Longrightarrow> body i acc = Inr (acc @ [h i])"
  shows "for_loop xs body acc = Inr (acc @ map h xs)"
  using assms
proof (induction xs arbitrary: acc)
  case Nil
  then show ?case by simp
next
  case (Cons i xs)
  have "body i acc = Inr (acc @ [h i])" by (rule Cons.prems) simp
  moreover have "for_loop xs body (acc @ [h i]) = Inr ((acc @ [h i]) @ map h xs)"
    by (rule Cons.IH) (simp add: Cons.prems)
  ultimately show ?case by simp
qed

lemma range_step_bytes:
  "range_step (int n - 7) 8 = map (\<lambda>k. k * 8) [0..<n div 8]"
proof -
  have "(int n - 7 + int 8 - 1) div int 8 = int (n div 8)"
    by (simp add: zdiv_int)
  then show ?thesis
    unfolding range_step_def by (simp only: nat_int)
qed

lemma byte_slice:
  assumes "list_all is_bin_digit s" and "k < length s div 8"
  shows "length (slice s (k * 8) 8) = 8"
    and "int_base2 (slice s (k * 8) 8) = Inr (bin_value (slice s (k * 8) 8))"
proof -
  from assms(2) have "k * 8 + 8 \<le> length s" by simp
  then show len: "length (slice s (k * 8) 8) = 8" by (simp add: slice_def)
  then have "slice s (k * 8) 8 \<noteq> []" by auto
  then show "int_base2 (slice s (k * 8) 8) = Inr (bin_value (slice s (k * 8) 8))"
    by (rule int_base2_bin) (rule slice_bin [OF assms(1)])
qed

lemma ascii_chars_bytes:
  assumes "list_all is_bin_digit s"
  shows "ascii_chars_of s =
           Inr (map (\<lambda>k. ascii_char (bin_value (slice s (k * 8) 8))) [0..<length s div 8])"
proof -
  have "for_loop (map (\<lambda>k. k * 8) [0..<length s div 8])
       (\<lambda>i ascii_chars.
          (let byte = slice s i 8
           in if length byte = 8
              then (case int_base2 byte of
                      Inl e \<Rightarrow> Inl e
                    | Inr val \<Rightarrow>
                        if 32 \<le> val \<and> val \<le> 126 then Inr (ascii_chars @ [char_of val])
                        else Inr (ascii_chars @ ''.''))
              else Inr ascii_chars))
       [] = Inr ([] @ map (\<lambda>i. ascii_char (bin_value (slice s i 8)))
                        (map (\<lambda>k. k * 8) [0..<length s div 8]))"
  proof (rule for_loop_append_map)
    fix i acc
    assume "i \<in> set (map (\<lambda>k. k * 8) [0..<length s div 8])"
    then obtain k where k: "i = k * 8" "k < length s div 8" by auto
    from byte_slice [OF assms k(2)] show "(let byte = slice s i 8
           in if length byte = 8
              then (case int_base2 byte of
                      Inl e \<Rightarrow> Inl e
                    | Inr val \<Rightarrow>
                        if 32 \<le> val \<and> val \<le> 126 then Inr (acc @ [char_of val])
                        else Inr (acc @ ''.''))
              else Inr acc) = Inr (acc @ [ascii_char (bin_value (slice s i 8))])"
      unfolding k(1) by (simp add: Let_def ascii_char_def)
  qed
  then show ?thesis
    unfolding ascii_chars_of_def range_step_bytes by (simp add: comp_def)
qed

lemma decimal_sequence_bytes:
  assumes "list_all is_bin_digit s"
  shows "decimal_sequence_of s =
           Inr (map (\<lambda>k. let v = bin_value (slice s (k * 8) 8)
                         in if 48 \<le> v \<and> v \<le> 57 then char_of v else CHR '' '')
                  [0..<length s div 8])"
proof -
  have "for_loop (map (\<lambda>k. k * 8) [0..<length s div 8])
       (\<lambda>i decimal_sequence.
          (let byte = slice s i 8
           in if length byte = 8
              then (case int_base2 byte of
                      Inl e \<Rightarrow> Inl e
                    | Inr val \<Rightarrow>
                        if 48 \<le> val \<and> val \<le> 57 then Inr (decimal_sequence @ [char_of val])
                        else Inr (decimal_sequence @ '' ''))
              else Inr decimal_sequence))
       [] = Inr ([] @ map (\<lambda>i. let v = bin_value (slice s i 8)
                               in if 48 \<le> v \<and> v \<le> 57 then char_of v else CHR '' '')
                        (map (\<lambda>k. k * 8) [0..<length s div 8]))"
  proof (rule for_loop_append_map)
    fix i acc
    assume "i \<in> set (map (\<lambda>k. k * 8) [0..<length s div 8])"
    then obtain k where k: "i = k * 8" "k < length s div 8" by auto
    from byte_slice [OF assms k(2)] show "(let byte = slice s i 8
           in if length byte = 8
              then (case int_base2 byte of
                      Inl e \<Rightarrow> Inl e
                    | Inr val \<Rightarrow>
                        if 48 \<le> val \<and> val \<le> 57 then Inr (acc @ [char_of val])
                        else Inr (acc @ '' ''))
              else Inr acc) =
        Inr (acc @ [let v = bin_value (slice s i 8)
                    in if 48 \<le> v \<and> v \<le> 57 then char_of v else CHR '' ''])"
      unfolding k(1) by (simp add: Let_def)
  qed
  then show ?thesis
    unfolding decimal_sequence_of_def range_step_bytes by (simp add: comp_def)
qed

lemma of_char_char_of_int:
  assumes "0 \<le> v" and "v < 256"
  shows "(of_char (char_of (v::int)) :: nat) = nat v"
proof -
  have "int (of_char (char_of v) :: nat) = (of_char (char_of v) :: int)"
    by (rule of_nat_of_char)
  also have "\<dots> = v mod 256" by (rule of_char_of)
  also have "\<dots> = v" using assms by simp
  finally show ?thesis by simp
qed

lemma decimal_char_ascii:
  "(if 48 \<le> v \<and> v \<le> 57 then char_of v else CHR '' '') =
     (if is_digit (ascii_char v) then ascii_char v else CHR '' '')"
proof (cases "32 \<le> v \<and> v \<le> 126")
  case True
  then have "(of_char (char_of v) :: nat) = nat v" by (intro of_char_char_of_int) simp_all
  then have "is_digit (char_of v) \<longleftrightarrow> 48 \<le> v \<and> v \<le> 57"
    unfolding is_digit_def using True by auto
  with True show ?thesis by (simp add: ascii_char_def)
next
  case False
  have "\<not> is_digit CHR ''.''" by (simp add: is_digit_def)
  with False show ?thesis by (auto simp: ascii_char_def)
qed

lemma bin_value_bits:
  assumes "set bs \<subseteq> {0, 1}"
  shows "bin_value (map (\<lambda>b. if b = 1 then CHR ''1'' else CHR ''0'') bs) = byte_value bs"
proof -
  have "foldl (\<lambda>a c. 2 * a + (if c = CHR ''1'' then 1 else 0)) x
          (map (\<lambda>b. if b = 1 then CHR ''1'' else CHR ''0'') bs) =
        foldl (\<lambda>a b. 2 * a + b) x bs" for x :: int
    using assms by (induction bs arbitrary: x) auto
  then show ?thesis by (simp add: bin_value_def byte_value_def)
qed

lemma bit_string_map:
  assumes "set bits \<subseteq> {0, 1}"
  shows "bit_string_of bits = map (\<lambda>b. if b = 1 then CHR ''1'' else CHR ''0'') bits"
  using assms
proof (induction bits)
  case Nil
  then show ?case by (simp add: bit_string_of_def)
next
  case (Cons b bits)
  then have "b = 0 \<or> b = 1" by simp
  from str_int_bit [OF this] Cons show ?case
    by (simp add: bit_string_of_def)
qed

lemma renderings:
  assumes "set bits \<subseteq> {0, 1}"
  shows "ascii_chars_of (bit_string_of bits) = Inr (ascii_rendering bits)"
    and "decimal_sequence_of (bit_string_of bits) = Inr (digits_only (ascii_rendering bits))"
proof -
  let ?c = "\<lambda>b :: int. if b = 1 then CHR ''1'' else CHR ''0''"
  from bit_string_of_bits [OF assms]
  have b: "list_all is_bin_digit (bit_string_of bits)" "length (bit_string_of bits) = length bits"
    by simp_all
  have v: "bin_value (slice (bit_string_of bits) (k * 8) 8) = byte_value (take 8 (drop (k * 8) bits))"
    for k
  proof -
    have "slice (bit_string_of bits) (k * 8) 8 = map ?c (take 8 (drop (k * 8) bits))"
      unfolding bit_string_map [OF assms] slice_def by (simp add: take_map drop_map)
    moreover have "set (take 8 (drop (k * 8) bits)) \<subseteq> {0, 1}"
      using assms by (meson in_set_dropD in_set_takeD subset_iff)
    ultimately show ?thesis by (simp only: bin_value_bits)
  qed
  show "ascii_chars_of (bit_string_of bits) = Inr (ascii_rendering bits)"
    unfolding ascii_chars_bytes [OF b(1)] b(2) v ascii_rendering_def by (rule refl)
  show "decimal_sequence_of (bit_string_of bits) = Inr (digits_only (ascii_rendering bits))"
    unfolding decimal_sequence_bytes [OF b(1)] b(2) v ascii_rendering_def digits_only_def Let_def
      decimal_char_ascii
    by (simp add: comp_def)
qed

text \<open>Renderings and features of the example streams.\<close>

lemma quiet_rendering: "ascii_rendering (replicate 64 0) = ''........''"
  by code_simp

lemma quiet_features:
  "\<not> spec_call_sign ''........'' \<and> \<not> spec_digit_group 5 ''........'' \<and>
   \<not> spec_digit_group 8 ''........'' \<and> \<not> spec_letter_word ''........''"
  by code_simp

lemma id_rendering: "ascii_rendering id_bits = ''12345 AB''"
  unfolding id_bits_def by code_simp

lemma id_features:
  "\<not> spec_call_sign ''12345 AB'' \<and> spec_digit_group 5 ''12345 AB'' \<and>
   \<not> spec_digit_group 8 ''12345 AB'' \<and> \<not> spec_letter_word ''12345 AB''"
  by code_simp

lemma lower_word_rendering: "ascii_rendering lower_word_bits = ''abcd....''"
  unfolding lower_word_bits_def by code_simp

lemma lower_word_features:
  "\<not> spec_call_sign ''abcd....'' \<and> \<not> spec_digit_group 5 ''abcd....'' \<and>
   \<not> spec_digit_group 8 ''abcd....'' \<and> spec_letter_word ''abcd....'' \<and>
   \<not> spec_upper_word ''abcd....''"
  by code_simp

lemma callsign_rendering: "ascii_rendering callsign_bits = ''ABCABC..''"
  unfolding callsign_bits_def by code_simp

lemma callsign_features:
  "spec_call_sign_before_end ''ABCABC..'' \<and> \<not> spec_digit_group 5 ''ABCABC..'' \<and>
   \<not> spec_digit_group 8 ''ABCABC..'' \<and> spec_letter_word ''ABCABC..''"
  by code_simp

lemma station_rendering: "ascii_rendering station_bits = ''ABCABC 12345 12345678 ''"
  unfolding station_bits_def by code_simp

lemma station_features:
  "spec_call_sign_before_end ''ABCABC 12345 12345678 '' \<and>
   spec_digit_group 5 ''ABCABC 12345 12345678 '' \<and>
   spec_digit_group 8 ''ABCABC 12345 12345678 '' \<and>
   spec_letter_word ''ABCABC 12345 12345678 ''"
  by code_simp

lemma tail_callsign_rendering: "ascii_rendering tail_callsign_bits = ''..ABCABC''"
  unfolding tail_callsign_bits_def by code_simp

lemma tail_callsign_features:
  "spec_call_sign ''..ABCABC'' \<and> \<not> spec_call_sign_before_end ''..ABCABC'' \<and>
   \<not> spec_digit_group 5 ''..ABCABC'' \<and> \<not> spec_digit_group 8 ''..ABCABC'' \<and>
   spec_upper_word ''..ABCABC'' \<and> spec_letter_word ''..ABCABC''"
  by code_simp

lemma example_streams:
  "64 \<le> length (replicate 64 (0 :: int))" "set (replicate 64 (0 :: int)) \<subseteq> {0, 1}"
  "64 \<le> length id_bits" "set id_bits \<subseteq> {0, 1}"
  "64 \<le> length lower_word_bits" "set lower_word_bits \<subseteq> {0, 1}"
  "64 \<le> length callsign_bits" "set callsign_bits \<subseteq> {0, 1}"
  "64 \<le> length station_bits" "set station_bits \<subseteq> {0, 1}"
  "64 \<le> length tail_callsign_bits" "set tail_callsign_bits \<subseteq> {0, 1}"
  by (simp_all add: id_bits_def lower_word_bits_def callsign_bits_def station_bits_def
      tail_callsign_bits_def)

lemma lower_word_detectors:
  "callsign_patterns_of ''abcd....'' = [] \<and> findall_digits 5 (digits_only ''abcd....'') = [] \<and>
   findall_digits 8 (digits_only ''abcd....'') = [] \<and>
   findall_code_words (upper ''abcd....'') = [''ABCD'']"
  by code_simp

lemma tail_callsign_detectors:
  "callsign_patterns_of ''..ABCABC'' = [] \<and> findall_digits 5 (digits_only ''..ABCABC'') = [] \<and>
   findall_digits 8 (digits_only ''..ABCABC'') = [] \<and>
   findall_code_words (upper ''..ABCABC'') = [''ABCABC'']"
  by code_simp

text \<open>
  Against claim C9 as stated. The rendering \<^verbatim>\<open>abcd....\<close> has no repeated short substring,
  no group of five or eight digits and no word of four to six upper-case letters, and the
  claim gives it the score 0 and the band NONE; the heuristic searches the upper-cased
  rendering, finds \<^verbatim>\<open>ABCD\<close> and reports LOW. The rendering \<^verbatim>\<open>..ABCABC\<close> has the repeated
  substring \<^verbatim>\<open>ABC\<close> and the upper-case word \<^verbatim>\<open>ABCABC\<close>, which the claim scores 30 + 20,
  band MEDIUM; the heuristic does not look at a repetition that ends with the string
  and reports LOW.
\<close>

theorem monolit_claimed_features_missed:
  "64 \<le> length lower_word_bits \<and>
   ascii_chars_of (bit_string_of lower_word_bits) = Inr ''abcd....'' \<and>
   \<not> spec_call_sign ''abcd....'' \<and> \<not> spec_digit_group 5 ''abcd....'' \<and>
   \<not> spec_digit_group 8 ''abcd....'' \<and> \<not> spec_upper_word ''abcd....'' \<and>
   detect_monolit_coding (\<lambda>x. []) init_decoder lower_word_bits ''monolit_likelihood'' =
     Some (Str ''LOW - Few Monolit indicators'') \<and>
   likelihood_of 0 = ''NONE - No clear Monolit patterns'' \<and>
   64 \<le> length tail_callsign_bits \<and>
   ascii_chars_of (bit_string_of tail_callsign_bits) = Inr ''..ABCABC'' \<and>
   spec_call_sign ''..ABCABC'' \<and> \<not> spec_digit_group 5 ''..ABCABC'' \<and>
   \<not> spec_digit_group 8 ''..ABCABC'' \<and> spec_upper_word ''..ABCABC'' \<and>
   detect_monolit_coding (\<lambda>x. []) init_decoder tail_callsign_bits ''monolit_likelihood'' =
     Some (Str ''LOW - Few Monolit indicators'') \<and>
   likelihood_of (30 + 20) = ''MEDIUM - Some Monolit patterns''"
proof -
  note l = renderings [OF example_streams(6), unfolded lower_word_rendering]
  note t = renderings [OF example_streams(12), unfolded tail_callsign_rendering]
  have a: "detect_monolit_coding (\<lambda>x. []) init_decoder lower_word_bits ''monolit_likelihood'' =
      Some (Str ''LOW - Few Monolit indicators'')"
    using monolit_likelihood_slot [OF example_streams(5) l, of "\<lambda>x. []" init_decoder]
      lower_word_detectors
    by (simp add: monolit_score_def likelihood_of_def)
  have b: "detect_monolit_coding (\<lambda>x. []) init_decoder tail_callsign_bits ''monolit_likelihood'' =
      Some (Str ''LOW - Few Monolit indicators'')"
    using monolit_likelihood_slot [OF example_streams(11) t, of "\<lambda>x. []" init_decoder]
      tail_callsign_detectors
    by (simp add: monolit_score_def likelihood_of_def)
  have c: "likelihood_of 0 = ''NONE - No clear Monolit patterns''"
    "likelihood_of (30 + 20) = ''MEDIUM - Some Monolit patterns''"
    by (simp_all add: likelihood_of_def)
  from a b c l(1) t(1) example_streams(5,11) lower_word_features tail_callsign_features
  show ?thesis by blast
qed

text \<open>
  Claim C9, amended. With fewer than 64 bits the heuristic returns the insufficient-data
  dict and nothing else. With at least 64 bits, each 0 or 1, it builds the ASCII
  rendering and the digit-only rendering, writes no error slot, and the likelihood slot
  holds the band of its score: HIGH from 70, MEDIUM from 40 to 69, LOW from 20 to 39,
  NONE below 20. The score is 25 for a group of exactly five digits plus 25 for a group
  of exactly eight digits plus 20 for a word of four to six letters of either case, and
  30 more when a call-sign candidate is followed by at least one more character; with no
  call-sign candidate anywhere in the rendering there is no such 30. A rendering with no
  call-sign candidate, no such digit group and no such word scores 0 and reports NONE.
\<close>

theorem monolit_score_and_band:
  "(length bits < 64 \<longrightarrow>
      detect_monolit_coding fmt2 d bits =
        [''error'' \<mapsto> Str ''Insufficient data for Monolit analysis'']) \<and>
   (64 \<le> length bits \<and> set bits \<subseteq> {0, 1} \<longrightarrow>
      (let a = ascii_rendering bits;
           score = monolit_score (callsign_patterns_of a) (findall_digits 5 (digits_only a))
                     (findall_digits 8 (digits_only a)) (findall_code_words (upper a));
           rest = (if spec_digit_group 5 a then 25 else 0) +
                  (if spec_digit_group 8 a then 25 else 0) +
                  (if spec_letter_word a then 20 else 0)
       in ascii_chars_of (bit_string_of bits) = Inr a \<and>
          decimal_sequence_of (bit_string_of bits) = Inr (digits_only a) \<and>
          detect_monolit_coding fmt2 d bits ''monolit_likelihood'' =
            Some (Str (likelihood_of score)) \<and>
          detect_monolit_coding fmt2 d bits ''error'' = None \<and>
          (spec_call_sign_before_end a \<longrightarrow> score = 30 + rest) \<and>
          (\<not> spec_call_sign a \<longrightarrow> score = rest) \<and>
          (\<not> spec_call_sign a \<and> \<not> spec_digit_group 5 a \<and> \<not> spec_digit_group 8 a \<and>
           \<not> spec_letter_word a \<longrightarrow>
             score = 0 \<and>
             detect_monolit_coding fmt2 d bits ''monolit_likelihood'' =
               Some (Str ''NONE - No clear Monolit patterns'')))) \<and>
   (likelihood_of n = ''HIGH - Strong Monolit characteristics'' \<longleftrightarrow> 70 \<le> n) \<and>
   (likelihood_of n = ''MEDIUM - Some Monolit patterns'' \<longleftrightarrow> 40 \<le> n \<and> n < 70) \<and>
   (likelihood_of n = ''LOW - Few Monolit indicators'' \<longleftrightarrow> 20 \<le> n \<and> n < 40) \<and>
   (likelihood_of n = ''NONE - No clear Monolit patterns'' \<longleftrightarrow> n < 20)"
proof -
  have short: "detect_monolit_coding fmt2 d bits =
      [''error'' \<mapsto> Str ''Insufficient data for Monolit analysis'']" if "length bits < 64"
    using that by (simp add: detect_monolit_coding_def)
  have long: "let a = ascii_rendering bits;
           score = monolit_score (callsign_patterns_of a) (findall_digits 5 (digits_only a))
                     (findall_digits 8 (digits_only a)) (findall_code_words (upper a));
           rest = (if spec_digit_group 5 a then 25 else 0) +
                  (if spec_digit_group 8 a then 25 else 0) +
                  (if spec_letter_word a then 20 else 0)
       in ascii_chars_of (bit_string_of bits) = Inr a \<and>
          decimal_sequence_of (bit_string_of bits) = Inr (digits_only a) \<and>
          detect_monolit_coding fmt2 d bits ''monolit_likelihood'' =
            Some (Str (likelihood_of score)) \<and>
          detect_monolit_coding fmt2 d bits ''error'' = None \<and>
          (spec_call_sign_before_end a \<longrightarrow> score = 30 + rest) \<and>
          (\<not> spec_call_sign a \<longrightarrow> score = rest) \<and>
          (\<not> spec_call_sign a \<and> \<not> spec_digit_group 5 a \<and> \<not> spec_digit_group 8 a \<and>
           \<not> spec_letter_word a \<longrightarrow>
             score = 0 \<and>
             detect_monolit_coding fmt2 d bits ''monolit_likelihood'' =
               Some (Str ''NONE - No clear Monolit patterns''))"
    if len: "64 \<le> length bits" and bits: "set bits \<subseteq> {0, 1}"
  proof -
    define a where "a = ascii_rendering bits"
    define score where "score = monolit_score (callsign_patterns_of a)
      (findall_digits 5 (digits_only a)) (findall_digits 8 (digits_only a))
      (findall_code_words (upper a))"
    define rest :: nat where "rest = (if spec_digit_group 5 a then 25 else 0) +
      (if spec_digit_group 8 a then 25 else 0) + (if spec_letter_word a then 20 else 0)"
    note r = renderings [OF bits, folded a_def]
    note slot = monolit_likelihood_slot [OF len r, of fmt2 d, folded score_def]
    have p: "0 < (5::nat)" "0 < (8::nat)" by simp_all
    have cs: "callsign_patterns_of a \<noteq> [] \<longleftrightarrow> spec_call_sign_before_end a"
      by (rule callsign_patterns_nonempty)
    have g5: "findall_digits 5 (digits_only a) \<noteq> [] \<longleftrightarrow> spec_digit_group 5 a"
      unfolding findall_digits_nonempty [OF p(1)] by (rule digit_group_rendering)
    have g8: "findall_digits 8 (digits_only a) \<noteq> [] \<longleftrightarrow> spec_digit_group 8 a"
      unfolding findall_digits_nonempty [OF p(2)] by (rule digit_group_rendering)
    have cw: "findall_code_words (upper a) \<noteq> [] \<longleftrightarrow> spec_letter_word a"
      unfolding findall_code_words_nonempty by (rule code_word_rendering)
    have sc: "score = (if spec_call_sign_before_end a then 30 else 0) + rest"
      unfolding score_def rest_def monolit_score_sum cs g5 g8 cw by simp
    have 1: "score = 30 + rest" if "spec_call_sign_before_end a"
      using sc that by simp
    have 2: "score = rest" if "\<not> spec_call_sign a"
      using sc that spec_call_sign_before_end_imp [of a] by auto
    have 3: "score = 0" if "\<not> spec_call_sign a" "\<not> spec_digit_group 5 a"
      "\<not> spec_digit_group 8 a" "\<not> spec_letter_word a"
      using 2 [OF that(1)] that(2-4) by (simp add: rest_def)
    have none: "likelihood_of 0 = ''NONE - No clear Monolit patterns''"
      by (simp add: likelihood_of_def)
    have 4: "detect_monolit_coding fmt2 d bits ''monolit_likelihood'' =
        Some (Str ''NONE - No clear Monolit patterns'')"
      if "\<not> spec_call_sign a" "\<not> spec_digit_group 5 a"
        "\<not> spec_digit_group 8 a" "\<not> spec_letter_word a"
      using slot 3 [OF that] none by simp
    show ?thesis
      unfolding Let_def a_def [symmetric] score_def [symmetric] rest_def [symmetric]
    proof (intro conjI impI)
      show "ascii_chars_of (bit_string_of bits) = Inr a" by (rule r(1))
      show "decimal_sequence_of (bit_string_of bits) = Inr (digits_only a)" by (rule r(2))
      show "detect_monolit_coding fmt2 d bits ''monolit_likelihood'' =
          Some (Str (likelihood_of score))" by (rule slot [THEN conjunct1])
      show "detect_monolit_coding fmt2 d bits ''error'' = None" by (rule slot [THEN conjunct2])
      show "score = 30 + rest" if "spec_call_sign_before_end a" by (rule 1 [OF that])
      show "score = rest" if "\<not> spec_call_sign a" by (rule 2 [OF that])
      show "score = 0" if "\<not> spec_call_sign a \<and> \<not> spec_digit_group 5 a \<and>
          \<not> spec_digit_group 8 a \<and> \<not> spec_letter_word a"
        using that 3 by blast
      show "detect_monolit_coding fmt2 d bits ''monolit_likelihood'' =
          Some (Str ''NONE - No clear Monolit patterns'')"
        if "\<not> spec_call_sign a \<and> \<not> spec_digit_group 5 a \<and>
          \<not> spec_digit_group 8 a \<and> \<not> spec_letter_word a"
        using that 4 by blast
    qed
  qed
  from short long likelihood_bands [of n] show ?thesis by blast
qed

text \<open>
  Sixty-four zero bits have none of the features (NONE); \<^verbatim>\<open>12345 AB\<close> has a five-digit
  group (25, LOW); \<^verbatim>\<open>abcd....\<close> has a word (20, LOW); \<^verbatim>\<open>ABCABC..\<close> has a call sign and a
  word (50, MEDIUM); the last stream has all four features (100, HIGH).
\<close>

theorem monolit_score_and_band_witness:
  "64 \<le> length (replicate 64 (0 :: int)) \<and> set (replicate 64 (0 :: int)) \<subseteq> {0, 1} \<and>
   \<not> spec_call_sign (ascii_rendering (replicate 64 0)) \<and>
   detect_monolit_coding (\<lambda>x. []) init_decoder (replicate 64 0) ''monolit_likelihood'' =
     Some (Str ''NONE - No clear Monolit patterns'') \<and>
   64 \<le> length id_bits \<and> set id_bits \<subseteq> {0, 1} \<and>
   \<not> spec_call_sign (ascii_rendering id_bits) \<and>
   detect_monolit_coding (\<lambda>x. []) init_decoder id_bits ''monolit_likelihood'' =
     Some (Str ''LOW - Few Monolit indicators'') \<and>
   64 \<le> length lower_word_bits \<and> set lower_word_bits \<subseteq> {0, 1} \<and>
   \<not> spec_call_sign (ascii_rendering lower_word_bits) \<and>
   detect_monolit_coding (\<lambda>x. []) init_decoder lower_word_bits ''monolit_likelihood'' =
     Some (Str ''LOW - Few Monolit indicators'') \<and>
   64 \<le> length callsign_bits \<and> set callsign_bits \<subseteq> {0, 1} \<and>
   spec_call_sign_before_end (ascii_rendering callsign_bits) \<and>
   detect_monolit_coding (\<lambda>x. []) init_decoder callsign_bits ''monolit_likelihood'' =
     Some (Str ''MEDIUM - Some Monolit patterns'') \<and>
   64 \<le> length station_bits \<and> set station_bits \<subseteq> {0, 1} \<and>
   spec_call_sign_before_end (ascii_rendering station_bits) \<and>
   detect_monolit_coding (\<lambda>x. []) init_decoder station_bits ''monolit_likelihood'' =
     Some (Str ''HIGH - Strong Monolit characteristics'') \<and>
   length [0, 1 :: int] < 64 \<and>
   detect_monolit_coding (\<lambda>x. []) init_decoder [0, 1] =
     [''error'' \<mapsto> Str ''Insufficient data for Monolit analysis'']"
proof -
  have q: "detect_monolit_coding (\<lambda>x. []) init_decoder (replicate 64 0) ''monolit_likelihood'' =
      Some (Str ''NONE - No clear Monolit patterns'')"
    using monolit_score_and_band [of "replicate 64 0" "\<lambda>x. []" init_decoder 0]
      example_streams(1,2) quiet_features
    unfolding Let_def quiet_rendering by simp
  have i: "detect_monolit_coding (\<lambda>x. []) init_decoder id_bits ''monolit_likelihood'' =
      Some (Str (likelihood_of 25))"
    using monolit_score_and_band [of id_bits "\<lambda>x. []" init_decoder 0]
      example_streams(3,4) id_features
    unfolding Let_def id_rendering by simp
  have l: "detect_monolit_coding (\<lambda>x. []) init_decoder lower_word_bits ''monolit_likelihood'' =
      Some (Str (likelihood_of 20))"
    using monolit_score_and_band [of lower_word_bits "\<lambda>x. []" init_decoder 0]
      example_streams(5,6) lower_word_features
    unfolding Let_def lower_word_rendering by simp
  have c: "detect_monolit_coding (\<lambda>x. []) init_decoder callsign_bits ''monolit_likelihood'' =
      Some (Str (likelihood_of 50))"
    using monolit_score_and_band [of callsign_bits "\<lambda>x. []" init_decoder 0]
      example_streams(7,8) callsign_features
    unfolding Let_def callsign_rendering by simp
  have s: "detect_monolit_coding (\<lambda>x. []) init_decoder station_bits ''monolit_likelihood'' =
      Some (Str (likelihood_of 100))"
    using monolit_score_and_band [of station_bits "\<lambda>x. []" init_decoder 0]
      example_streams(9,10) station_features
    unfolding Let_def station_rendering by simp
  have e: "detect_monolit_coding (\<lambda>x. []) init_decoder [0, 1] =
      [''error'' \<mapsto> Str ''Insufficient data for Monolit analysis'']"
    using monolit_score_and_band [of "[0, 1]" "\<lambda>x. []" init_decoder 0] by simp
  have b: "likelihood_of 25 = ''LOW - Few Monolit indicators''"
    "likelihood_of 20 = ''LOW - Few Monolit indicators''"
    "likelihood_of 50 = ''MEDIUM - Some Monolit patterns''"
    "likelihood_of 100 = ''HIGH - Strong Monolit characteristics''"
    by (simp_all add: likelihood_of_def)
  have f: "\<not> spec_call_sign (ascii_rendering (replicate 64 0))"
    "\<not> spec_call_sign (ascii_rendering id_bits)"
    "\<not> spec_call_sign (ascii_rendering lower_word_bits)"
    "spec_call_sign_before_end (ascii_rendering callsign_bits)"
    "spec_call_sign_before_end (ascii_rendering station_bits)"
    unfolding quiet_rendering id_rendering lower_word_rendering callsign_rendering
      station_rendering
    using quiet_features id_features lower_word_features callsign_features station_features
    by blast+
  have n: "length [0, 1 :: int] < 64" by simp
  from q i l c s e f n example_streams(1-10) show ?thesis
    unfolding b by blast
qed

end
